theory Spec2Isabelle
  imports Complex_Main "HOL-Library.Sublist" "HOL-Library.Multiset"
begin

section \<open>Data model\<close>

text \<open>
  Modelled from the spec: the types \<^verbatim>\<open>Outcome\<close>, \<^verbatim>\<open>Market\<close>, \<^verbatim>\<open>Bookmaker\<close>,
  \<^verbatim>\<open>GameOdds\<close>, \<^verbatim>\<open>PlayerProp\<close> and \<^verbatim>\<open>Event\<close> are declared in
  \<^verbatim>\<open>@/lib/odds-api\<close>, which is not among the sources. Their fields are those of the data
  model of the specification, which are the fields the components of
  \<^verbatim>\<open>src/components/prop-comparison/game-selector.tsx\<close> read and write. Two records may
  not share a field name, so \<^verbatim>\<open>Market.key\<close> is \<open>market_key\<close>, \<^verbatim>\<open>Bookmaker.key\<close> is
  \<open>book_key\<close>, \<^verbatim>\<open>PlayerProp.bookmakers\<close> is \<open>prop_bookmakers\<close> and the fields of
  \<^verbatim>\<open>Event\<close> carry the prefix \<open>event_\<close>; every other field has the name of the source.

  A \<^verbatim>\<open>point\<close> is a JSON number: a finite double, and the order of finite doubles is
  the order of the rationals they denote, so a point is a \<open>rat\<close>. A \<^verbatim>\<open>price\<close> is an
  integer (American odds). The \<^verbatim>\<open>description\<close> of an outcome may be absent (the code
  tests for it), so it is a \<open>string option\<close>. The entries of \<^verbatim>\<open>PlayerProp.bookmakers\<close>
  have the fields of a \<^verbatim>\<open>Bookmaker\<close> and are modelled by the same record.
\<close>

record Outcome =
  name :: string
  point :: rat
  price :: int
  description :: "string option"

record Market =
  market_key :: string
  outcomes :: "Outcome list"

record Bookmaker =
  book_key :: string
  title :: string
  last_update :: string
  markets :: "Market list"

record GameOdds =
  home_team :: string
  away_team :: string
  bookmakers :: "Bookmaker list"

record PlayerProp =
  player :: string
  team :: string
  statType :: string
  line :: rat
  prop_bookmakers :: "Bookmaker list"

text \<open>
  \<^verbatim>\<open>commence_time\<close> is an ISO 8601 string in the source, read only through
  \<^verbatim>\<open>new Date(e.commence_time).getTime()\<close>; the model holds that number of milliseconds.
\<close>

record Event =
  event_id :: string
  event_home_team :: string
  event_away_team :: string
  commence_time :: int

section \<open>Library functions of the language\<close>

text \<open>
  \<^verbatim>\<open>Array.prototype.sort(cmp)\<close> is stable; with a consistent comparator its result is
  the stable sorted arrangement, which insertion from the right computes: an element goes
  in front of the first element it does not compare greater than.
\<close>

fun insort_cmp :: "('a \<Rightarrow> 'a \<Rightarrow> 'n::{zero,ord}) \<Rightarrow> 'a \<Rightarrow> 'a list \<Rightarrow> 'a list" where
  "insort_cmp cmp x [] = [x]"
| "insort_cmp cmp x (y # ys) = (if cmp x y \<le> 0 then x # y # ys else y # insort_cmp cmp x ys)"

definition array_sort :: "('a \<Rightarrow> 'a \<Rightarrow> 'n::{zero,ord}) \<Rightarrow> 'a list \<Rightarrow> 'a list" where
  "array_sort cmp xs = foldr (insort_cmp cmp) xs []"

text \<open>\<^verbatim>\<open>s.includes(q)\<close>: \<open>q\<close> occurs in \<open>s\<close> as a contiguous run.\<close>

fun js_includes :: "string \<Rightarrow> string \<Rightarrow> bool" where
  "js_includes [] q = (q = [])"
| "js_includes (c # cs) q = (prefix q (c # cs) \<or> js_includes cs q)"

text \<open>\<^verbatim>\<open>s.replace(pat, rep)\<close> with a string pattern: only the first occurrence is replaced.\<close>

fun js_replace :: "string \<Rightarrow> string \<Rightarrow> string \<Rightarrow> string" where
  "js_replace [] pat rep = (if pat = [] then rep else [])"
| "js_replace (c # cs) pat rep =
     (if prefix pat (c # cs) then rep @ drop (length pat) (c # cs)
      else c # js_replace cs pat rep)"

text \<open>
  \<^verbatim>\<open>s.toLowerCase()\<close> follows the case tables of Unicode; like \<^verbatim>\<open>localeCompare\<close> it is
  not written out here but taken as a parameter by the functions that call it. A string is
  the list of its code units, and a \<open>char\<close> stands for one code unit.
\<close>

section \<open>Combining the markets of a bookmaker at fetch time\<close>

text \<open>
  \<^verbatim>\<open>fetchPlayerProps\<close>, lines 418 to 490. The test \<^verbatim>\<open>isDuplicate\<close> is the same
  expression at lines 464 and 612.
\<close>

definition isDuplicate :: "Outcome list \<Rightarrow> Outcome \<Rightarrow> bool" where
  "isDuplicate allOutcomes x =
     list_ex (\<lambda>o'. name o' = name x \<and> point o' = point x \<and> description o' = description x)
       allOutcomes"

definition pushUnique :: "Outcome list \<Rightarrow> Outcome \<Rightarrow> Outcome list" where
  "pushUnique allOutcomes x = (if isDuplicate allOutcomes x then allOutcomes else allOutcomes @ [x])"

definition by_point :: "Outcome \<Rightarrow> Outcome \<Rightarrow> rat" where
  "by_point a b = point a - point b"

definition combineOutcomes :: "Outcome list \<Rightarrow> Outcome list \<Rightarrow> Outcome list" where
  "combineOutcomes standardOutcomes alternateOutcomes =
     array_sort by_point (foldl pushUnique standardOutcomes alternateOutcomes)"

definition isAlternate :: "Market \<Rightarrow> bool" where
  "isAlternate m = js_includes (market_key m) ''alternate''"

definition standardKey :: "string \<Rightarrow> string" where
  "standardKey k = js_replace k ''_alternate'' []"

definition matching :: "Market \<Rightarrow> Market \<Rightarrow> bool" where
  "matching standardMarket m = (standardKey (market_key m) = market_key standardMarket)"

definition mergeMarket :: "Market list \<Rightarrow> Market \<Rightarrow> Market" where
  "mergeMarket alternateMarkets standardMarket =
     (case find (matching standardMarket) alternateMarkets of
        None \<Rightarrow> standardMarket
      | Some alternateMarket \<Rightarrow>
          standardMarket\<lparr>outcomes :=
            combineOutcomes (outcomes standardMarket) (outcomes alternateMarket)\<rparr>)"

definition standardMarkets :: "Bookmaker \<Rightarrow> Market list" where
  "standardMarkets book = filter (\<lambda>m. \<not> isAlternate m) (markets book)"

definition alternateMarkets :: "Bookmaker \<Rightarrow> Market list" where
  "alternateMarkets book = filter isAlternate (markets book)"

definition combineMarkets :: "Bookmaker \<Rightarrow> Bookmaker" where
  "combineMarkets book =
     (if standardMarkets book = [] \<and> alternateMarkets book \<noteq> []
      then book\<lparr>markets :=
             map (\<lambda>alternateMarket.
                    alternateMarket\<lparr>market_key := standardKey (market_key alternateMarket)\<rparr>)
               (alternateMarkets book)\<rparr>
      else book\<lparr>markets := map (mergeMarket (alternateMarkets book)) (standardMarkets book)\<rparr>)"

definition combineGameOdds :: "GameOdds \<Rightarrow> GameOdds" where
  "combineGameOdds responseData =
     responseData\<lparr>bookmakers := map combineMarkets (bookmakers responseData)\<rparr>"

section \<open>Transforming the game data into player props\<close>

text \<open>
  The \<^verbatim>\<open>playerProps\<close> memo, lines 549 to 677. \<^verbatim>\<open>getMarketApiKey\<close> is imported from
  \<^verbatim>\<open>@/lib/constants/markets\<close>; its two results, \<^verbatim>\<open>standardMarketKey\<close> and
  \<^verbatim>\<open>alternateMarketKey\<close>, are parameters here.

  \<^verbatim>\<open>playerOutcomes\<close> is a \<^verbatim>\<open>Map\<close>, which iterates in insertion order: an association
  list, where \<open>map_set\<close> keeps the place of a key that is present and appends a new one.
\<close>

fun map_set :: "'k \<Rightarrow> 'v \<Rightarrow> ('k \<times> 'v) list \<Rightarrow> ('k \<times> 'v) list" where
  "map_set k v [] = [(k, v)]"
| "map_set k v ((k', v') # kvs) =
     (if k' = k then (k, v) # kvs else (k', v') # map_set k v kvs)"

definition selectedOutcomes :: "string \<Rightarrow> string \<Rightarrow> Bookmaker \<Rightarrow> Outcome list" where
  "selectedOutcomes standardMarketKey alternateMarketKey bookmaker =
     (case find (\<lambda>m. market_key m = standardMarketKey) (markets bookmaker) of
        None \<Rightarrow> [] | Some standardMarket \<Rightarrow> outcomes standardMarket) @
     (case find (\<lambda>m. market_key m = alternateMarketKey) (markets bookmaker) of
        None \<Rightarrow> [] | Some alternateMarket \<Rightarrow> outcomes alternateMarket)"

text \<open>
  Lines 604 to 621. \<^verbatim>\<open>!outcome.description\<close> holds for an absent description and for
  the empty string.
\<close>

definition addOutcome ::
  "(string \<times> Outcome list) list \<Rightarrow> Outcome \<Rightarrow> (string \<times> Outcome list) list" where
  "addOutcome playerOutcomes outcome =
     (case description outcome of
        None \<Rightarrow> playerOutcomes
      | Some d \<Rightarrow>
          if d = [] then playerOutcomes
          else map_set d
                 (pushUnique (case map_of playerOutcomes d of None \<Rightarrow> [] | Some os \<Rightarrow> os) outcome)
                 playerOutcomes)"

definition groupByPlayer :: "Outcome list \<Rightarrow> (string \<times> Outcome list) list" where
  "groupByPlayer allOutcomes = foldl addOutcome [] allOutcomes"

text \<open>Lines 624 to 658: \<^verbatim>\<open>existingProp.bookmakers.push\<close> changes the first prop of that player.\<close>

fun pushBookmaker :: "string \<Rightarrow> Bookmaker \<Rightarrow> PlayerProp list \<Rightarrow> PlayerProp list" where
  "pushBookmaker pl entry [] = []"
| "pushBookmaker pl entry (p # ps) =
     (if player p = pl then p\<lparr>prop_bookmakers := prop_bookmakers p @ [entry]\<rparr> # ps
      else p # pushBookmaker pl entry ps)"

definition bookmakerEntry :: "string \<Rightarrow> Bookmaker \<Rightarrow> Outcome list \<Rightarrow> Bookmaker" where
  "bookmakerEntry standardMarketKey bookmaker outs =
     \<lparr>book_key = book_key bookmaker, title = title bookmaker,
      last_update = last_update bookmaker,
      markets = [\<lparr>market_key = standardMarketKey, outcomes = outs\<rparr>]\<rparr>"

text \<open>\<^verbatim>\<open>overOutcome?.point || 0\<close>: a point that is \<open>0\<close> gives \<open>0\<close> as well.\<close>

definition overLine :: "Outcome list \<Rightarrow> rat" where
  "overLine outs =
     (case find (\<lambda>o'. name o' = ''Over'') outs of None \<Rightarrow> 0 | Some overOutcome \<Rightarrow> point overOutcome)"

definition createProp ::
  "GameOdds \<Rightarrow> string \<Rightarrow> string \<Rightarrow> Bookmaker \<Rightarrow> PlayerProp list \<Rightarrow> string \<times> Outcome list
    \<Rightarrow> PlayerProp list" where
  "createProp gameData standardMarketKey st bookmaker props entry =
     (let pl = fst entry;
          outs = array_sort by_point (snd entry)
      in case find (\<lambda>p. player p = pl) props of
           Some existingProp \<Rightarrow>
             pushBookmaker pl (bookmakerEntry standardMarketKey bookmaker outs) props
         | None \<Rightarrow>
             props @ [\<lparr>player = pl, team = home_team gameData, statType = st,
                       line = overLine outs,
                       prop_bookmakers = [bookmakerEntry standardMarketKey bookmaker outs]\<rparr>])"

text \<open>
  The body of \<^verbatim>\<open>gameData.bookmakers.forEach\<close>. Both early returns leave \<open>props\<close> as
  it is; so does an empty \<open>playerOutcomes\<close>.
\<close>

definition addBookmaker ::
  "GameOdds \<Rightarrow> string \<Rightarrow> string \<Rightarrow> string \<Rightarrow> PlayerProp list \<Rightarrow> Bookmaker \<Rightarrow> PlayerProp list"
  where
  "addBookmaker gameData standardMarketKey alternateMarketKey st props bookmaker =
     (if find (\<lambda>m. market_key m = standardMarketKey) (markets bookmaker) = None \<and>
         find (\<lambda>m. market_key m = alternateMarketKey) (markets bookmaker) = None
      then props
      else let allOutcomes = selectedOutcomes standardMarketKey alternateMarketKey bookmaker
           in if allOutcomes = [] then props
              else foldl (createProp gameData standardMarketKey st bookmaker) props
                     (groupByPlayer allOutcomes))"

definition playerProps ::
  "GameOdds option \<Rightarrow> string \<Rightarrow> string \<Rightarrow> string \<Rightarrow> PlayerProp list" where
  "playerProps gameData standardMarketKey alternateMarketKey st =
     (case gameData of
        None \<Rightarrow> []
      | Some gd \<Rightarrow>
          foldl (addBookmaker gd standardMarketKey alternateMarketKey st) [] (bookmakers gd))"

section \<open>Best price per line\<close>

text \<open>
  \<^verbatim>\<open>renderTableView\<close>, lines 1000 to 1031. The two accumulators start at
  \<^verbatim>\<open>-Infinity\<close>, which no price is.
\<close>

datatype js_number = NegInfinity | Num int

fun math_max :: "js_number \<Rightarrow> int \<Rightarrow> js_number" where
  "math_max NegInfinity p = Num p"
| "math_max (Num b) p = Num (max b p)"

record BestPerLine =
  over :: js_number
  under :: js_number

definition set_add :: "rat list \<Rightarrow> rat \<Rightarrow> rat list" where
  "set_add s x = (if List.member s x then s else s @ [x])"

definition allLines :: "PlayerProp \<Rightarrow> string \<Rightarrow> rat list" where
  "allLines prop marketKey =
     foldl (\<lambda>acc bookmaker.
              case find (\<lambda>m. market_key m = marketKey) (markets bookmaker) of
                None \<Rightarrow> acc
              | Some market \<Rightarrow> foldl (\<lambda>acc' outcome. set_add acc' (point outcome)) acc
                                 (outcomes market))
       [] (prop_bookmakers prop)"

definition sortedLines :: "PlayerProp \<Rightarrow> string \<Rightarrow> rat list" where
  "sortedLines prop marketKey = array_sort (\<lambda>a b. a - b) (allLines prop marketKey)"

definition bestStep :: "string \<Rightarrow> rat \<Rightarrow> BestPerLine \<Rightarrow> Bookmaker \<Rightarrow> BestPerLine" where
  "bestStep marketKey lineVal best bookmaker =
     (case find (\<lambda>m. market_key m = marketKey) (markets bookmaker) of
        None \<Rightarrow> best
      | Some market \<Rightarrow>
          \<lparr>over = (case find (\<lambda>o'. name o' = ''Over'' \<and> point o' = lineVal) (outcomes market) of
                     None \<Rightarrow> over best | Some ov \<Rightarrow> math_max (over best) (price ov)),
           under = (case find (\<lambda>o'. name o' = ''Under'' \<and> point o' = lineVal) (outcomes market) of
                      None \<Rightarrow> under best | Some un \<Rightarrow> math_max (under best) (price un))\<rparr>)"

definition bestForLine :: "PlayerProp \<Rightarrow> string \<Rightarrow> rat \<Rightarrow> BestPerLine" where
  "bestForLine prop marketKey lineVal =
     foldl (bestStep marketKey lineVal) \<lparr>over = NegInfinity, under = NegInfinity\<rparr>
       (prop_bookmakers prop)"

definition bestOddsPerLine :: "PlayerProp \<Rightarrow> string \<Rightarrow> (rat \<times> BestPerLine) list" where
  "bestOddsPerLine prop marketKey =
     map (\<lambda>lineVal. (lineVal, bestForLine prop marketKey lineVal)) (sortedLines prop marketKey)"

section \<open>Searching and sorting\<close>

text \<open>
  The \<^verbatim>\<open>filteredProps\<close> memo, lines 680 to 706. \<^verbatim>\<open>String.prototype.toLowerCase\<close>
  depends on the case tables of Unicode, \<^verbatim>\<open>String.prototype.localeCompare\<close> on the
  locale of the browser, and \<^verbatim>\<open>findBestOdds\<close> is imported from \<^verbatim>\<open>@/lib/odds-api\<close>:
  the three are parameters. \<^verbatim>\<open>sortBy\<close> has the type \<^verbatim>\<open>"name" | "best-odds"\<close>.
\<close>

datatype SortBy = Name | BestOdds

record Best =
  bookmaker :: string
  best_line :: rat
  odds :: int

text \<open>\<^verbatim>\<open>best?.odds || 0\<close>\<close>

definition oddsOrZero :: "Best option \<Rightarrow> int" where
  "oddsOrZero best = (case best of None \<Rightarrow> 0 | Some b \<Rightarrow> odds b)"

definition matchesQuery :: "(string \<Rightarrow> string) \<Rightarrow> string \<Rightarrow> PlayerProp \<Rightarrow> bool" where
  "matchesQuery toLowerCase query prop =
     (js_includes (toLowerCase (player prop)) query \<or>
      (team prop \<noteq> [] \<and> js_includes (toLowerCase (team prop)) query))"

definition filteredProps ::
  "(string \<Rightarrow> string) \<Rightarrow> (string \<Rightarrow> string \<Rightarrow> int)
    \<Rightarrow> (PlayerProp \<Rightarrow> string \<Rightarrow> string \<Rightarrow> Best option) \<Rightarrow> string
    \<Rightarrow> PlayerProp list \<Rightarrow> string \<Rightarrow> SortBy \<Rightarrow> PlayerProp list" where
  "filteredProps toLowerCase localeCompare findBestOdds marketKey props searchQuery sortBy =
     (let filtered =
            (if searchQuery \<noteq> []
             then filter (matchesQuery toLowerCase (toLowerCase searchQuery)) props
             else props)
      in case sortBy of
           Name \<Rightarrow> array_sort (\<lambda>a b. localeCompare (player a) (player b)) filtered
         | BestOdds \<Rightarrow>
             array_sort
               (\<lambda>a b. oddsOrZero (findBestOdds b marketKey ''Over'') -
                      oddsOrZero (findBestOdds a marketKey ''Over''))
               filtered)"

section \<open>Loading the events\<close>

text \<open>
  \<^verbatim>\<open>GameSelector\<close>, lines 29 to 87. The record is the state of the component; the calls
  of \<^verbatim>\<open>onGameSelect\<close> are collected in a list, in order.

  A function component runs its effects after a render, and a function created in an effect
  holds the state as that render saw it. The \<^verbatim>\<open>selectedEventId\<close> that line 67 tests is
  therefore the one of the render that started the request, not the state at the time the
  response arrives: \<open>fetchEvents\<close> takes this captured value beside the state.

  Both effects have the dependencies \<^verbatim>\<open>[sport, onGameSelect]\<close> (lines 40 and 82), and the
  callback the parent passes is the setter of a state, which never changes. So the two
  effects run together, in the order of their declaration, when the component mounts and
  whenever the sport changes, and at no other time: \<open>sportEffects\<close> is what they do to the
  state the render saw, once the response is there.
\<close>

datatype Response = Rejected string | NotOk | NotArray | Loaded "Event list"

record SelectorState =
  events :: "Event list"
  loading :: bool
  error :: "string option"
  selectedEventId :: "string option"

definition by_commence_time :: "Event \<Rightarrow> Event \<Rightarrow> int" where
  "by_commence_time a b = commence_time a - commence_time b"

text \<open>Lines 36 to 40: reset the selection when the sport changes.\<close>

definition resetSelection :: "SelectorState \<Rightarrow> SelectorState \<times> string list" where
  "resetSelection s = (s\<lparr>selectedEventId := None, error := None\<rparr>, [[]])"

definition failed :: "SelectorState \<Rightarrow> string \<Rightarrow> SelectorState \<times> string list" where
  "failed s msg = (s\<lparr>error := Some msg, events := [], loading := False\<rparr>, [])"

text \<open>
  Lines 43 to 79. \<open>captured\<close> is the \<^verbatim>\<open>selectedEventId\<close> of the closure, \<open>s\<close> the state when
  the response arrives. \<^verbatim>\<open>!selectedEventId\<close> holds for \<^verbatim>\<open>null\<close> and for the empty string.
\<close>

definition fetchEvents ::
  "string option \<Rightarrow> SelectorState \<Rightarrow> Response \<Rightarrow> SelectorState \<times> string list" where
  "fetchEvents captured s response =
     (case response of
        Rejected msg \<Rightarrow> failed s msg
      | NotOk \<Rightarrow> failed s ''Failed to fetch events''
      | NotArray \<Rightarrow> failed s ''Invalid response format''
      | Loaded data \<Rightarrow>
          (let sortedEvents = array_sort by_commence_time data;
               s1 = s\<lparr>error := None, events := sortedEvents, loading := False\<rparr>
           in case sortedEvents of
                [] \<Rightarrow> (s1, [])
              | firstEvent # _ \<Rightarrow>
                  if captured = None \<or> captured = Some []
                  then (s1\<lparr>selectedEventId := Some (event_id firstEvent)\<rparr>,
                        [event_id firstEvent])
                  else (s1, [])))"

definition sportEffects :: "SelectorState \<Rightarrow> Response \<Rightarrow> SelectorState \<times> string list" where
  "sportEffects rendered response =
     (let reset = resetSelection rendered;
          fetched = fetchEvents (selectedEventId rendered) (fst reset) response
      in (fst fetched, snd reset @ snd fetched))"

section \<open>Notions used to state the properties\<close>

text \<open>
  The identity of an outcome for deduplication is the triple of its name, point and
  description, the three fields \<open>isDuplicate\<close> compares.
\<close>

definition outcomeKey :: "Outcome \<Rightarrow> string \<times> rat \<times> string option" where
  "outcomeKey x = (name x, point x, description x)"

text \<open>
  What one bookmaker contributes for a player \<open>q\<close>: it has data when some outcome of its
  selected markets carries the non-empty description \<open>q\<close>; its outcomes for \<open>q\<close> are those
  outcomes, deduplicated in order; its entry in the prop holds them sorted. \<open>stepFor\<close> is
  what the loop over the bookmakers does to the prop of \<open>q\<close>, if there is one yet.
\<close>

definition outcomesFor :: "string \<Rightarrow> string \<Rightarrow> string \<Rightarrow> Bookmaker \<Rightarrow> Outcome list" where
  "outcomesFor std alt q b =
     foldl pushUnique [] (filter (\<lambda>x. description x = Some q) (selectedOutcomes std alt b))"

definition hasData :: "string \<Rightarrow> string \<Rightarrow> string \<Rightarrow> Bookmaker \<Rightarrow> bool" where
  "hasData std alt q b =
     (q \<noteq> [] \<and> list_ex (\<lambda>x. description x = Some q) (selectedOutcomes std alt b))"

definition attach ::
  "GameOdds \<Rightarrow> string \<Rightarrow> string \<Rightarrow> Bookmaker \<Rightarrow> string \<Rightarrow> PlayerProp option \<Rightarrow> Outcome list
    \<Rightarrow> PlayerProp" where
  "attach gd std st b q acc os =
     (case acc of
        None \<Rightarrow> \<lparr>player = q, team = home_team gd, statType = st,
                 line = overLine (array_sort by_point os),
                 prop_bookmakers = [bookmakerEntry std b (array_sort by_point os)]\<rparr>
      | Some p \<Rightarrow>
          p\<lparr>prop_bookmakers :=
              prop_bookmakers p @ [bookmakerEntry std b (array_sort by_point os)]\<rparr>)"

definition stepFor ::
  "GameOdds \<Rightarrow> string \<Rightarrow> string \<Rightarrow> string \<Rightarrow> string \<Rightarrow> PlayerProp option \<Rightarrow> Bookmaker
    \<Rightarrow> PlayerProp option" where
  "stepFor gd std alt st q acc b =
     (if hasData std alt q b then Some (attach gd std st b q acc (outcomesFor std alt q b))
      else acc)"

definition entryFor :: "string \<Rightarrow> string \<Rightarrow> string \<Rightarrow> Bookmaker \<Rightarrow> Bookmaker" where
  "entryFor std alt q b = bookmakerEntry std b (array_sort by_point (outcomesFor std alt q b))"

text \<open>
  A well-formed entry of the prop of \<open>q\<close>: one market under the key \<open>mk\<close>, whose outcomes all
  belong to \<open>q\<close>, pairwise differ in their triple and ascend by point.
\<close>

definition entryOk :: "string \<Rightarrow> string \<Rightarrow> Bookmaker \<Rightarrow> bool" where
  "entryOk mk q e =
     (\<exists>outs. markets e = [\<lparr>market_key = mk, outcomes = outs\<rparr>] \<and>
             (\<forall>x\<in>set outs. description x = Some q) \<and>
             distinct (map outcomeKey outs) \<and> sorted (map point outs))"

text \<open>
  The prices a prop offers for a side at a line, over all its entries, and what it means
  for a computed best price to be their maximum: \<^verbatim>\<open>-Infinity\<close> stands for no price at
  all. \<open>sidePrice\<close> is the price one entry contributes to the scan, \<open>raise\<close> one step of
  the scan.
\<close>

definition sideKey :: "Outcome \<Rightarrow> string \<times> rat" where
  "sideKey x = (name x, point x)"

definition pricesAt :: "PlayerProp \<Rightarrow> string \<Rightarrow> rat \<Rightarrow> int set" where
  "pricesAt prop side lineVal =
     {price x | e m x. e \<in> set (prop_bookmakers prop) \<and> m \<in> set (markets e) \<and>
                       x \<in> set (outcomes m) \<and> name x = side \<and> point x = lineVal}"

definition isMaxOf :: "js_number \<Rightarrow> int set \<Rightarrow> bool" where
  "isMaxOf b S = (case b of NegInfinity \<Rightarrow> S = {} | Num v \<Rightarrow> v \<in> S \<and> (\<forall>w\<in>S. w \<le> v))"

definition sidePrice :: "string \<Rightarrow> string \<Rightarrow> rat \<Rightarrow> Bookmaker \<Rightarrow> int option" where
  "sidePrice marketKey side lineVal e =
     (case find (\<lambda>m. market_key m = marketKey) (markets e) of
        None \<Rightarrow> None
      | Some m \<Rightarrow> map_option price (find (\<lambda>x. name x = side \<and> point x = lineVal) (outcomes m)))"

definition raise :: "(Bookmaker \<Rightarrow> int option) \<Rightarrow> js_number \<Rightarrow> Bookmaker \<Rightarrow> js_number" where
  "raise g acc e = (case g e of None \<Rightarrow> acc | Some pr \<Rightarrow> math_max acc pr)"

text \<open>
  Matching without regard to case, relative to the lower-casing of the language: the
  lower-cased query occurs as a contiguous run in the lower-cased string. Then the sort key
  of the mode \<^verbatim>\<open>"best-odds"\<close>.
\<close>

definition containsIgnoreCase :: "(string \<Rightarrow> string) \<Rightarrow> string \<Rightarrow> string \<Rightarrow> bool" where
  "containsIgnoreCase toLowerCase s q = sublist (toLowerCase q) (toLowerCase s)"

definition bestOverOdds ::
  "(PlayerProp \<Rightarrow> string \<Rightarrow> string \<Rightarrow> Best option) \<Rightarrow> string \<Rightarrow> PlayerProp \<Rightarrow> int" where
  "bestOverOdds findBestOdds marketKey p = oddsOrZero (findBestOdds p marketKey ''Over'')"

section \<open>An example payload\<close>

text \<open>
  Two bookmakers for one game, after the examples of the specification: player X is offered
  Over 25.5 at +120 by the first and at -110 by the second; player Y has the same outcome
  (Over 10 at +100) in the standard and in the alternate market of the first. The values
  the transformation gives on this payload are written out and checked by evaluation.
\<close>

definition demoStandard :: Market where
  "demoStandard =
     \<lparr>market_key = ''player_points'', outcomes =
        [\<lparr>name = ''Over'', point = 51/2, price = 120, description = Some ''X''\<rparr>,
         \<lparr>name = ''Under'', point = 51/2, price = -150, description = Some ''X''\<rparr>,
         \<lparr>name = ''Over'', point = 10, price = 100, description = Some ''Y''\<rparr>]\<rparr>"

definition demoAlternate :: Market where
  "demoAlternate =
     \<lparr>market_key = ''player_points_alternate'', outcomes =
        [\<lparr>name = ''Over'', point = 10, price = 100, description = Some ''Y''\<rparr>,
         \<lparr>name = ''Over'', point = 41/2, price = -250, description = Some ''X''\<rparr>,
         \<lparr>name = ''Over'', point = 5, price = -400, description = None\<rparr>]\<rparr>"

text \<open>An alternate market that matches no standard market of the example.\<close>

definition demoRebounds :: Market where
  "demoRebounds =
     \<lparr>market_key = ''player_rebounds_alternate'', outcomes =
        [\<lparr>name = ''Over'', point = 15/2, price = 105, description = Some ''X''\<rparr>]\<rparr>"

definition demoA :: Bookmaker where
  "demoA = \<lparr>book_key = ''draftkings'', title = ''DraftKings'',
            last_update = ''2025-03-01T18:00:00Z'', markets = [demoStandard, demoAlternate]\<rparr>"

definition demoB :: Bookmaker where
  "demoB = \<lparr>book_key = ''fanduel'', title = ''FanDuel'', last_update = ''2025-03-01T18:05:00Z'',
     markets =
      [\<lparr>market_key = ''player_points'', outcomes =
          [\<lparr>name = ''Over'', point = 51/2, price = -110, description = Some ''X''\<rparr>,
           \<lparr>name = ''Under'', point = 51/2, price = -105, description = Some ''X''\<rparr>]\<rparr>]\<rparr>"

definition demoGame :: GameOdds where
  "demoGame = \<lparr>home_team = ''Lakers'', away_team = ''Celtics'', bookmakers = [demoA, demoB]\<rparr>"

text \<open>
  The props of the example, the merged outcomes of the first bookmaker at fetch time, and
  their values.
\<close>

definition demoProps :: "PlayerProp list" where
  "demoProps = playerProps (Some demoGame) ''player_points'' ''player_points_alternate'' ''points''"

definition demoMerged :: "Outcome list" where
  "demoMerged =
     [\<lparr>name = ''Over'', point = 5, price = - 400, description = None\<rparr>,
      \<lparr>name = ''Over'', point = 10, price = 100, description = Some ''Y''\<rparr>,
      \<lparr>name = ''Over'', point = 41 / 2, price = - 250, description = Some ''X''\<rparr>,
      \<lparr>name = ''Over'', point = 51 / 2, price = 120, description = Some ''X''\<rparr>,
      \<lparr>name = ''Under'', point = 51 / 2, price = - 150, description = Some ''X''\<rparr>]"

definition demoPropX :: PlayerProp where
  "demoPropX =
     \<lparr>player = ''X'', team = ''Lakers'', statType = ''points'', line = 41 / 2,
      prop_bookmakers =
        [\<lparr>book_key = ''draftkings'', title = ''DraftKings'', last_update = ''2025-03-01T18:00:00Z'',
          markets =
            [\<lparr>market_key = ''player_points'', outcomes =
               [\<lparr>name = ''Over'', point = 41 / 2, price = - 250, description = Some ''X''\<rparr>,
                \<lparr>name = ''Over'', point = 51 / 2, price = 120, description = Some ''X''\<rparr>,
                \<lparr>name = ''Under'', point = 51 / 2, price = - 150, description = Some ''X''\<rparr>]\<rparr>]\<rparr>,
         \<lparr>book_key = ''fanduel'', title = ''FanDuel'', last_update = ''2025-03-01T18:05:00Z'',
          markets =
            [\<lparr>market_key = ''player_points'', outcomes =
               [\<lparr>name = ''Over'', point = 51 / 2, price = - 110, description = Some ''X''\<rparr>,
                \<lparr>name = ''Under'', point = 51 / 2, price = - 105, description = Some ''X''\<rparr>]\<rparr>]\<rparr>]\<rparr>"

definition demoPropY :: PlayerProp where
  "demoPropY =
     \<lparr>player = ''Y'', team = ''Lakers'', statType = ''points'', line = 10,
      prop_bookmakers =
        [\<lparr>book_key = ''draftkings'', title = ''DraftKings'', last_update = ''2025-03-01T18:00:00Z'',
          markets =
            [\<lparr>market_key = ''player_points'', outcomes =
               [\<lparr>name = ''Over'', point = 10, price = 100, description = Some ''Y''\<rparr>]\<rparr>]\<rparr>]\<rparr>"

text \<open>
  Stand-ins for the parameters on the example, whose strings are ASCII. For
  \<^verbatim>\<open>toLowerCase\<close>: the letters A to Z move to a to z, which is what the language does to
  ASCII text. For \<^verbatim>\<open>localeCompare\<close>: the order of the character codes, first difference
  first. For \<^verbatim>\<open>findBestOdds\<close>: one that finds nothing, one that returns the best "Over"
  prices of the example.
\<close>

definition asciiLowerChar :: "char \<Rightarrow> char" where
  "asciiLowerChar c =
     (case map_of (zip ''ABCDEFGHIJKLMNOPQRSTUVWXYZ'' ''abcdefghijklmnopqrstuvwxyz'') c of
        None \<Rightarrow> c
      | Some l \<Rightarrow> l)"

definition asciiLowerCase :: "string \<Rightarrow> string" where
  "asciiLowerCase s = map asciiLowerChar s"

fun compareCodes :: "nat list \<Rightarrow> nat list \<Rightarrow> int" where
  "compareCodes [] [] = 0"
| "compareCodes [] (y # ys) = - 1"
| "compareCodes (x # xs) [] = 1"
| "compareCodes (x # xs) (y # ys) =
     (if x < y then - 1 else if y < x then 1 else compareCodes xs ys)"

definition codeUnitCompare :: "string \<Rightarrow> string \<Rightarrow> int" where
  "codeUnitCompare a b = compareCodes (map of_char a) (map of_char b)"

definition noBestOdds :: "PlayerProp \<Rightarrow> string \<Rightarrow> string \<Rightarrow> Best option" where
  "noBestOdds p marketKey side = None"

definition demoFindBestOdds :: "PlayerProp \<Rightarrow> string \<Rightarrow> string \<Rightarrow> Best option" where
  "demoFindBestOdds p marketKey side =
     (if player p = ''X'' then Some \<lparr>bookmaker = ''draftkings'', best_line = 51/2, odds = 120\<rparr>
      else if player p = ''Y'' then Some \<lparr>bookmaker = ''draftkings'', best_line = 10, odds = 100\<rparr>
      else None)"

text \<open>
  A bookmaker that offers the alternate market only; two events out of order, and the
  state of the component when it mounts.
\<close>

definition demoAltOnly :: Bookmaker where
  "demoAltOnly = \<lparr>book_key = ''betmgm'', title = ''BetMGM'',
                  last_update = ''2025-03-01T18:10:00Z'', markets = [demoAlternate]\<rparr>"

definition demoEvents :: "Event list" where
  "demoEvents =
     [\<lparr>event_id = ''e1'', event_home_team = ''Lakers'', event_away_team = ''Celtics'',
       commence_time = 1740877200000\<rparr>,
      \<lparr>event_id = ''e2'', event_home_team = ''Heat'', event_away_team = ''Bulls'',
       commence_time = 1740870000000\<rparr>]"

definition initialState :: SelectorState where
  "initialState = \<lparr>events = [], loading = True, error = None, selectedEventId = None\<rparr>"

text \<open>
  The component after it has mounted and loaded \<open>demoEvents\<close>, and the events of another
  sport, to which the user then switches.
\<close>

definition demoMounted :: SelectorState where
  "demoMounted = fst (sportEffects initialState (Loaded demoEvents))"

definition demoOtherEvents :: "Event list" where
  "demoOtherEvents =
     [\<lparr>event_id = ''h1'', event_home_team = ''Bruins'', event_away_team = ''Rangers'',
       commence_time = 1740880800000\<rparr>,
      \<lparr>event_id = ''h2'', event_home_team = ''Oilers'', event_away_team = ''Flames'',
       commence_time = 1740873600000\<rparr>]"

section \<open>Lemmas\<close>

subsection \<open>Pushing an outcome unless its triple is there\<close>

lemma key_mem_iff: "(\<exists>y\<in>A. f y = f x) \<longleftrightarrow> f x \<in> f ` A"
  by (metis image_iff)

lemma isDuplicate_iff: "isDuplicate xs x \<longleftrightarrow> outcomeKey x \<in> outcomeKey ` set xs"
proof -
  have "isDuplicate xs x \<longleftrightarrow> (\<exists>y\<in>set xs. outcomeKey y = outcomeKey x)"
    by (simp add: isDuplicate_def outcomeKey_def list_ex_iff)
  then show ?thesis by (simp only: key_mem_iff)
qed

lemma fold_unique:
  fixes k :: "'a \<Rightarrow> 'b"
  assumes dup: "\<And>xs x. dup xs x \<longleftrightarrow> k x \<in> k ` set xs"
    and push: "\<And>xs x. push xs x = (if dup xs x then xs else xs @ [x])"
  shows "\<exists>new. foldl push std alt = std @ new \<and> subseq new alt \<and>
         distinct (map k new) \<and> k ` set new = k ` set alt - k ` set std"
proof (induction alt arbitrary: std)
  case Nil
  show ?case by simp
next
  case (Cons a alt)
  show ?case
  proof (cases "dup std a")
    case True
    from Cons.IH[of std] obtain new where n: "foldl push std alt = std @ new"
      "subseq new alt" "distinct (map k new)"
      "k ` set new = k ` set alt - k ` set std" by blast
    from True have "k a \<in> k ` set std" by (simp add: dup)
    then have "k ` set new = k ` set (a # alt) - k ` set std" using n(4) by auto
    moreover from True have "foldl push std (a # alt) = std @ new"
      by (simp add: push n(1))
    moreover have "subseq new (a # alt)" using n(2) by (rule list_emb_Cons)
    ultimately show ?thesis using n(3) by blast
  next
    case False
    from Cons.IH[of "std @ [a]"] obtain new where n: "foldl push (std @ [a]) alt = (std @ [a]) @ new"
      "subseq new alt" "distinct (map k new)"
      "k ` set new = k ` set alt - k ` set (std @ [a])" by blast
    from False have na: "k a \<notin> k ` set std" by (simp add: dup)
    have nn: "k a \<notin> k ` set new" using n(4) by auto
    have "foldl push std (a # alt) = std @ a # new"
      using False by (simp add: push n(1))
    moreover have "k ` set (a # new) = k ` set (a # alt) - k ` set std"
      using n(4) na by auto
    moreover have "subseq (a # new) (a # alt)" using n(2) by simp
    moreover have "distinct (map k (a # new))" using n(3) nn by simp
    ultimately show ?thesis by blast
  qed
qed

lemma pushUnique_fold:
  "\<exists>new. foldl pushUnique std alt = std @ new \<and> subseq new alt \<and>
         distinct (map outcomeKey new) \<and>
         outcomeKey ` set new = outcomeKey ` set alt - outcomeKey ` set std"
  by (rule fold_unique[of isDuplicate outcomeKey pushUnique]) (simp_all add: isDuplicate_iff pushUnique_def)

lemma distinct_pushUnique_fold:
  assumes "distinct (map outcomeKey std)"
  shows "distinct (map outcomeKey (foldl pushUnique std alt))"
proof -
  from pushUnique_fold[of std alt] obtain new where n: "foldl pushUnique std alt = std @ new"
      "distinct (map outcomeKey new)"
      "outcomeKey ` set new = outcomeKey ` set alt - outcomeKey ` set std" by blast
  then show ?thesis using assms by auto
qed

lemma set_pushUnique_fold_subset: "set (foldl pushUnique std alt) \<subseteq> set std \<union> set alt"
proof -
  from pushUnique_fold[of std alt] obtain new where n: "foldl pushUnique std alt = std @ new"
      "subseq new alt" by blast
  then show ?thesis using subseq_order.dual_order.trans[OF _ n(2)] by (auto dest: list_emb_set)
qed

subsection \<open>Strings\<close>

text \<open>
  \<^verbatim>\<open>_alternate\<close> does not overlap itself, so its first occurrence in an identifier free
  of it followed by \<^verbatim>\<open>_alternate\<close> is the suffix.
\<close>

lemma js_replace_suffix:
  assumes ov: "\<And>xs. prefix pat (xs @ pat) \<Longrightarrow> xs = [] \<or> prefix pat xs"
  shows "\<not> js_includes base pat \<Longrightarrow> js_replace (base @ pat) pat [] = base"
proof (induction base)
  case Nil
  then show ?case by (cases pat) auto
next
  case (Cons c cs)
  then have 1: "\<not> prefix pat (c # cs)" and 2: "\<not> js_includes cs pat" by auto
  from 1 ov[of "c # cs"] have "\<not> prefix pat (c # cs @ pat)" by auto
  then show ?case using Cons.IH[OF 2] by simp
qed

lemma pat_overlap: "prefix ''_alternate'' (xs @ ''_alternate'') \<Longrightarrow> xs = [] \<or> prefix ''_alternate'' xs"
  by (auto simp: prefix_append append_eq_Cons_conv Cons_eq_append_conv)

lemma standardKey_suffix: "\<not> js_includes base ''_alternate'' \<Longrightarrow> standardKey (base @ ''_alternate'') = base"
  unfolding standardKey_def by (rule js_replace_suffix[OF pat_overlap])

lemma js_includes_iff: "js_includes s q \<longleftrightarrow> sublist q s"
  by (induction s) (auto simp: sublist_Cons_right)

subsection \<open>Sorting\<close>

text \<open>
  The sort rearranges; with a comparator that is the difference of a key it is the stable
  sort by that key, and with any total and transitive comparator its result is ordered.
\<close>

lemma mset_insort_cmp: "mset (insort_cmp cmp x xs) = add_mset x (mset xs)"
  by (induction xs) auto

lemma mset_array_sort: "mset (array_sort cmp xs) = mset xs"
  unfolding array_sort_def by (induction xs) (auto simp: mset_insort_cmp)

lemma set_array_sort: "set (array_sort cmp xs) = set xs"
  by (metis mset_array_sort set_mset_mset)

lemma insort_cmp_key:
  assumes "\<And>a b. (cmp a b \<le> 0) = (f a \<le> f b)"
  shows "insort_cmp cmp x xs = insort_key f x xs"
  by (induction xs) (auto simp: assms)

lemma array_sort_key:
  assumes "\<And>a b. (cmp a b \<le> 0) = (f a \<le> f b)"
  shows "array_sort cmp xs = sort_key f xs"
  unfolding array_sort_def sort_key_def using insort_cmp_key[of cmp f, OF assms] by presburger

lemma array_sort_by_point: "array_sort by_point xs = sort_key point xs"
  by (rule array_sort_key) (simp add: by_point_def)

lemma distinct_map_array_sort: "distinct (map g (array_sort cmp xs)) = distinct (map g xs)"
  by (rule mset_eq_imp_distinct_iff) (simp add: mset_array_sort)

lemma set_insort_cmp: "set (insort_cmp cmp x xs) = insert x (set xs)"
  by (induction xs) auto

lemma sorted_wrt_insort_cmp:
  assumes tot: "\<And>a b. cmp a b \<le> 0 \<or> cmp b a \<le> 0"
    and trans: "\<And>a b c. cmp a b \<le> 0 \<Longrightarrow> cmp b c \<le> 0 \<Longrightarrow> cmp a c \<le> 0"
  shows "sorted_wrt (\<lambda>a b. cmp a b \<le> 0) xs \<Longrightarrow> sorted_wrt (\<lambda>a b. cmp a b \<le> 0) (insort_cmp cmp x xs)"
proof (induction xs)
  case Nil then show ?case by simp
next
  case (Cons y ys)
  show ?case
  proof (cases "cmp x y \<le> 0")
    case True
    with Cons.prems trans show ?thesis by auto
  next
    case False
    with tot have "cmp y x \<le> 0" by blast
    with False Cons show ?thesis
      by (auto simp: set_insort_cmp)
  qed
qed

lemma sorted_wrt_array_sort:
  assumes tot: "\<And>a b. cmp a b \<le> 0 \<or> cmp b a \<le> 0"
    and trans: "\<And>a b c. cmp a b \<le> 0 \<Longrightarrow> cmp b c \<le> 0 \<Longrightarrow> cmp a c \<le> 0"
  shows "sorted_wrt (\<lambda>a b. cmp a b \<le> 0) (array_sort cmp xs)"
  unfolding array_sort_def
  by (induction xs) (simp_all add: sorted_wrt_insort_cmp[OF tot trans])

subsection \<open>Grouping the outcomes of a bookmaker by player\<close>

lemma map_of_map_set: "map_of (map_set k v kvs) = (map_of kvs)(k \<mapsto> v)"
  by (induction kvs) (auto simp: fun_eq_iff)

lemma keys_map_set:
  "map fst (map_set k v kvs) = (if k \<in> set (map fst kvs) then map fst kvs else map fst kvs @ [k])"
  by (induction k v kvs rule: map_set.induct) auto

lemma distinct_map_set: "distinct (map fst (map_set k v kvs)) = distinct (map fst kvs)"
  by (simp add: keys_map_set)

lemma map_of_addOutcome:
  "map_of (addOutcome G x) d =
     (if description x = Some d \<and> d \<noteq> []
      then Some (pushUnique (case map_of G d of None \<Rightarrow> [] | Some v \<Rightarrow> v) x)
      else map_of G d)"
  by (auto simp: addOutcome_def map_of_map_set split: option.splits)

lemma distinct_addOutcome: "distinct (map fst (addOutcome G x)) = distinct (map fst G)"
  by (auto simp: addOutcome_def distinct_map_set split: option.splits)

lemma map_of_group_fold:
  "map_of (foldl addOutcome G xs) d =
     (if d \<noteq> [] \<and> filter (\<lambda>x. description x = Some d) xs \<noteq> []
      then Some (foldl pushUnique (case map_of G d of None \<Rightarrow> [] | Some v \<Rightarrow> v)
                   (filter (\<lambda>x. description x = Some d) xs))
      else map_of G d)"
proof (induction xs arbitrary: G)
  case Nil
  show ?case by simp
next
  case (Cons x xs)
  show ?case
    by (simp add: Cons.IH map_of_addOutcome)
qed

lemma distinct_group_fold: "distinct (map fst (foldl addOutcome G xs)) = distinct (map fst G)"
  by (induction xs arbitrary: G) (simp_all add: distinct_addOutcome)

lemma filter_nonempty_iff: "filter P xs \<noteq> [] \<longleftrightarrow> list_ex P xs"
  by (induction xs) auto

lemma map_of_groupByPlayer:
  "map_of (groupByPlayer (selectedOutcomes std alt b)) q =
     (if hasData std alt q b then Some (outcomesFor std alt q b) else None)"
  by (simp add: groupByPlayer_def map_of_group_fold hasData_def outcomesFor_def filter_nonempty_iff)

lemma distinct_groupByPlayer: "distinct (map fst (groupByPlayer xs))"
  by (simp add: groupByPlayer_def distinct_group_fold)

subsection \<open>The prop of one player through the loops\<close>

text \<open>
  The prop of a player is found by \<^verbatim>\<open>props.find\<close>, and what a bookmaker does to it
  depends on that prop alone: the loops are followed player by player.
\<close>

lemma find_pushBookmaker:
  "find (\<lambda>p. player p = q) (pushBookmaker pl e props) =
     (if q = pl
      then map_option (\<lambda>p. p\<lparr>prop_bookmakers := prop_bookmakers p @ [e]\<rparr>)
             (find (\<lambda>p. player p = pl) props)
      else find (\<lambda>p. player p = q) props)"
  by (induction props) auto

lemma players_pushBookmaker: "map player (pushBookmaker pl e props) = map player props"
  by (induction props) auto

lemma find_snoc:
  "find P (xs @ [y]) = (case find P xs of None \<Rightarrow> (if P y then Some y else None) | Some x \<Rightarrow> Some x)"
  by (induction xs) auto

lemma find_createProp:
  "find (\<lambda>p. player p = q) (createProp gd std st b props (pl, os)) =
     (if q = pl then Some (attach gd std st b pl (find (\<lambda>p. player p = pl) props) os)
      else find (\<lambda>p. player p = q) props)"
  by (auto simp: createProp_def attach_def Let_def find_pushBookmaker find_snoc split: option.splits)

lemma players_createProp:
  "map player (createProp gd std st b props (pl, os)) =
     (if pl \<in> set (map player props) then map player props else map player props @ [pl])"
  by (auto simp: createProp_def Let_def players_pushBookmaker find_None_iff split: option.splits dest: find_Some_iff[THEN iffD1])

lemma find_fold_createProp:
  "distinct (map fst G) \<Longrightarrow>
   find (\<lambda>p. player p = q) (foldl (createProp gd std st b) props G) =
     (case map_of G q of
        None \<Rightarrow> find (\<lambda>p. player p = q) props
      | Some os \<Rightarrow> Some (attach gd std st b q (find (\<lambda>p. player p = q) props) os))"
proof (induction G arbitrary: props)
  case Nil
  show ?case by simp
next
  case (Cons g G)
  obtain pl os where g: "g = (pl, os)" by (cases g)
  from Cons.prems g have d: "distinct (map fst G)" and n: "map_of G pl = None"
    by (auto simp: map_of_eq_None_iff)
  show ?case
    using n by (simp add: g Cons.IH[OF d] find_createProp split: option.splits)
qed

lemma players_fold_createProp:
  "distinct (map player props) \<Longrightarrow>
   distinct (map player (foldl (createProp gd std st b) props G)) \<and>
   set (map player (foldl (createProp gd std st b) props G)) = set (map player props) \<union> fst ` set G"
proof (induction G arbitrary: props)
  case Nil
  then show ?case by simp
next
  case (Cons g G)
  obtain pl os where g: "g = (pl, os)" by (cases g)
  have d: "distinct (map player (createProp gd std st b props (pl, os)))"
    using Cons.prems by (simp add: players_createProp)
  show ?case
    using Cons.IH[OF d] by (auto simp: g players_createProp)
qed

lemma addBookmaker_eq:
  "addBookmaker gd std alt st props b =
     foldl (createProp gd std st b) props (groupByPlayer (selectedOutcomes std alt b))"
  by (auto simp: addBookmaker_def Let_def selectedOutcomes_def groupByPlayer_def)

lemma find_addBookmaker:
  "find (\<lambda>p. player p = q) (addBookmaker gd std alt st props b) =
     stepFor gd std alt st q (find (\<lambda>p. player p = q) props) b"
  by (simp add: addBookmaker_eq find_fold_createProp distinct_groupByPlayer map_of_groupByPlayer stepFor_def)

lemma players_addBookmaker:
  "distinct (map player props) \<Longrightarrow>
   distinct (map player (addBookmaker gd std alt st props b)) \<and>
   set (map player (addBookmaker gd std alt st props b)) =
     set (map player props) \<union> {q. hasData std alt q b}"
proof -
  assume d: "distinct (map player props)"
  have "fst ` set (groupByPlayer (selectedOutcomes std alt b)) = {q. hasData std alt q b}"
  proof -
    have "fst ` set (groupByPlayer (selectedOutcomes std alt b)) = dom (map_of (groupByPlayer (selectedOutcomes std alt b)))"
      by (simp add: dom_map_of_conv_image_fst)
    also have "\<dots> = {q. hasData std alt q b}"
      by (auto simp: dom_def map_of_groupByPlayer)
    finally show ?thesis .
  qed
  with players_fold_createProp[OF d, of gd std st b "groupByPlayer (selectedOutcomes std alt b)"]
  show ?thesis by (simp add: addBookmaker_eq)
qed

lemma find_fold_addBookmaker:
  "find (\<lambda>p. player p = q) (foldl (addBookmaker gd std alt st) props bs) =
     foldl (stepFor gd std alt st q) (find (\<lambda>p. player p = q) props) bs"
  by (induction bs arbitrary: props) (simp_all add: find_addBookmaker)

lemma players_fold_addBookmaker:
  "distinct (map player props) \<Longrightarrow>
   distinct (map player (foldl (addBookmaker gd std alt st) props bs)) \<and>
   set (map player (foldl (addBookmaker gd std alt st) props bs)) =
     set (map player props) \<union> {q. \<exists>b\<in>set bs. hasData std alt q b}"
proof (induction bs arbitrary: props)
  case Nil
  then show ?case by simp
next
  case (Cons b bs)
  from players_addBookmaker[OF Cons.prems, of gd std alt st b]
  have d: "distinct (map player (addBookmaker gd std alt st props b))"
    and s: "set (map player (addBookmaker gd std alt st props b)) =
     set (map player props) \<union> {q. hasData std alt q b}" by blast+
  from Cons.IH[OF d] s show ?case by auto
qed

lemma stepFor_skip: "\<not> hasData std alt q b \<Longrightarrow> stepFor gd std alt st q acc b = acc"
  by (simp add: stepFor_def)

lemma stepFor_push:
  "hasData std alt q b \<Longrightarrow>
   stepFor gd std alt st q (Some p) b =
     Some (p\<lparr>prop_bookmakers := prop_bookmakers p @ [entryFor std alt q b]\<rparr>)"
  by (simp add: stepFor_def attach_def entryFor_def)

lemma stepFor_new:
  "hasData std alt q b \<Longrightarrow>
   stepFor gd std alt st q None b =
     Some \<lparr>player = q, team = home_team gd, statType = st,
           line = overLine (array_sort by_point (outcomesFor std alt q b)),
           prop_bookmakers = [entryFor std alt q b]\<rparr>"
  by (simp add: stepFor_def attach_def entryFor_def)

lemma stepFor_Some:
  "foldl (stepFor gd std alt st q) (Some p) bs =
     Some (p\<lparr>prop_bookmakers := prop_bookmakers p @ map (entryFor std alt q) (filter (hasData std alt q) bs)\<rparr>)"
  by (induction bs arbitrary: p) (simp_all add: stepFor_skip stepFor_push)

lemma stepFor_None:
  "foldl (stepFor gd std alt st q) None bs =
     (case filter (hasData std alt q) bs of
        [] \<Rightarrow> None
      | b # rest \<Rightarrow>
          Some \<lparr>player = q, team = home_team gd, statType = st,
                line = overLine (array_sort by_point (outcomesFor std alt q b)),
                prop_bookmakers = map (entryFor std alt q) (b # rest)\<rparr>)"
  by (induction bs) (simp_all add: stepFor_skip stepFor_new stepFor_Some)

lemma playerProps_players:
  "distinct (map player (playerProps (Some gd) std alt st)) \<and>
   set (map player (playerProps (Some gd) std alt st)) = {q. \<exists>b\<in>set (bookmakers gd). hasData std alt q b}"
  using players_fold_addBookmaker[of "[]" gd std alt st "bookmakers gd"]
  by (simp add: playerProps_def)

lemma find_distinct_key:
  "distinct (map f xs) \<Longrightarrow> x \<in> set xs \<Longrightarrow> find (\<lambda>y. f y = f x) xs = Some x"
  by (induction xs) (auto simp: image_iff)

lemma playerProps_member:
  assumes "p \<in> set (playerProps (Some gd) std alt st)"
  shows "\<exists>b rest. filter (hasData std alt (player p)) (bookmakers gd) = b # rest \<and>
           p = \<lparr>player = player p, team = home_team gd, statType = st,
                line = overLine (array_sort by_point (outcomesFor std alt (player p) b)),
                prop_bookmakers = map (entryFor std alt (player p)) (b # rest)\<rparr>"
proof -
  let ?props = "playerProps (Some gd) std alt st"
  have d: "distinct (map player ?props)" using playerProps_players by blast
  have "find (\<lambda>x. player x = player p) ?props = Some p"
    using d assms by (rule find_distinct_key)
  moreover have "find (\<lambda>x. player x = player p) ?props =
      foldl (stepFor gd std alt st (player p)) None (bookmakers gd)"
    using find_fold_addBookmaker[of "player p" gd std alt st "[]" "bookmakers gd"]
    by (simp add: playerProps_def)
  ultimately have "foldl (stepFor gd std alt st (player p)) None (bookmakers gd) = Some p"
    by simp
  then show ?thesis
    unfolding stepFor_None by (auto split: list.splits)
qed

subsection \<open>The scan for the best price\<close>

lemma over_bestStep:
  "over (bestStep mk l best e) = raise (sidePrice mk ''Over'' l) (over best) e"
  by (simp add: bestStep_def raise_def sidePrice_def split: option.splits)

lemma under_bestStep:
  "under (bestStep mk l best e) = raise (sidePrice mk ''Under'' l) (under best) e"
  by (simp add: bestStep_def raise_def sidePrice_def split: option.splits)

lemma over_fold_bestStep:
  "over (foldl (bestStep mk l) best es) = foldl (raise (sidePrice mk ''Over'' l)) (over best) es"
  by (induction es arbitrary: best) (simp_all add: over_bestStep)

lemma under_fold_bestStep:
  "under (foldl (bestStep mk l) best es) = foldl (raise (sidePrice mk ''Under'' l)) (under best) es"
  by (induction es arbitrary: best) (simp_all add: under_bestStep)

lemma isMaxOf_math_max: "isMaxOf b S \<Longrightarrow> isMaxOf (math_max b pr) (insert pr S)"
  by (cases b) (auto simp: isMaxOf_def max_def)

lemma isMaxOf_raise:
  "isMaxOf b S \<Longrightarrow> isMaxOf (raise g b e) (S \<union> {pr. g e = Some pr})"
  by (cases "g e") (auto simp: raise_def dest: isMaxOf_math_max)

lemma isMaxOf_fold_raise:
  "isMaxOf b S \<Longrightarrow> isMaxOf (foldl (raise g) b es) (S \<union> {pr. \<exists>e\<in>set es. g e = Some pr})"
proof (induction es arbitrary: b S)
  case Nil
  then show ?case by simp
next
  case (Cons e es)
  have "S \<union> {pr. \<exists>x\<in>set (e # es). g x = Some pr} =
        (S \<union> {pr. g e = Some pr}) \<union> {pr. \<exists>x\<in>set es. g x = Some pr}" by auto
  with Cons.IH[OF isMaxOf_raise[OF Cons.prems, of g e]] show ?case by simp
qed

lemma find_unique:
  assumes "distinct (map k xs)" and "\<And>x. x \<in> set xs \<Longrightarrow> P x \<longleftrightarrow> k x = v"
  shows "{f x | x. x \<in> set xs \<and> P x} = {pr. map_option f (find P xs) = Some pr}"
  using assms
proof (induction xs)
  case Nil
  then show ?case by simp
next
  case (Cons y ys)
  have ih: "{f x | x. x \<in> set ys \<and> P x} = {pr. map_option f (find P ys) = Some pr}"
    using Cons by simp
  show ?case
  proof (cases "P y")
    case True
    then have "k y = v" using Cons.prems(2) by simp
    then have "\<And>x. x \<in> set ys \<Longrightarrow> \<not> P x" using Cons.prems by (metis distinct.simps(2) image_eqI list.set_intros(2) list.simps(9) list.set_map)
    with True show ?thesis by auto
  next
    case False
    then show ?thesis using ih by auto
  qed
qed

subsection \<open>The entries of a prop are well formed\<close>

lemma outcomesFor_description: "x \<in> set (outcomesFor std alt q b) \<Longrightarrow> description x = Some q"
  using set_pushUnique_fold_subset[of "[]" "filter (\<lambda>x. description x = Some q) (selectedOutcomes std alt b)"]
  by (auto simp: outcomesFor_def)

lemma distinct_outcomesFor: "distinct (map outcomeKey (outcomesFor std alt q b))"
  unfolding outcomesFor_def by (rule distinct_pushUnique_fold) simp

lemma sorted_array_sort_by_point: "sorted (map point (array_sort by_point xs))"
  by (simp add: array_sort_by_point)

lemma entryFor_ok: "entryOk std q (entryFor std alt q b)"
  unfolding entryOk_def entryFor_def bookmakerEntry_def
  by (auto simp: set_array_sort outcomesFor_description distinct_map_array_sort distinct_outcomesFor
      sorted_array_sort_by_point)

lemma playerProps_entries:
  assumes "p \<in> set (playerProps (Some gd) std alt st)"
  shows "\<forall>e\<in>set (prop_bookmakers p). entryOk std (player p) e"
proof -
  from playerProps_member[OF assms] obtain b rest where
    "prop_bookmakers p = map (entryFor std alt (player p)) (b # rest)"
    by (metis PlayerProp.select_convs(5))
  then show ?thesis by (auto simp: entryFor_ok)
qed

lemma entryOk_distinct:
  "entryOk mk q e \<Longrightarrow> m \<in> set (markets e) \<Longrightarrow> distinct (map outcomeKey (outcomes m))"
  by (auto simp: entryOk_def)

lemma entryOk_sorted:
  "entryOk mk q e \<Longrightarrow> m \<in> set (markets e) \<Longrightarrow> sorted (map point (outcomes m))"
  by (auto simp: entryOk_def)

lemma entryOk_description:
  "entryOk mk q e \<Longrightarrow> m \<in> set (markets e) \<Longrightarrow> x \<in> set (outcomes m) \<Longrightarrow> description x = Some q"
  by (auto simp: entryOk_def)

lemma find_filter_Cons: "filter P xs = b # rest \<Longrightarrow> find P xs = Some b"
  by (induction xs) (auto split: if_splits)

lemma distinct_sideKey:
  assumes "\<forall>x\<in>set xs. description x = d" "distinct (map outcomeKey xs)"
  shows "distinct (map sideKey xs)"
proof -
  from assms(2) have dx: "distinct xs" and inj: "inj_on outcomeKey (set xs)"
    by (simp_all add: distinct_map)
  have "inj_on sideKey (set xs)"
  proof (rule inj_onI)
    fix x y assume "x \<in> set xs" "y \<in> set xs" "sideKey x = sideKey y"
    with assms(1) have "outcomeKey x = outcomeKey y" by (simp add: outcomeKey_def sideKey_def)
    with inj \<open>x \<in> set xs\<close> \<open>y \<in> set xs\<close> show "x = y" by (simp add: inj_on_def)
  qed
  with dx show ?thesis by (simp add: distinct_map)
qed

lemma entry_prices:
  assumes "entryOk mk q e"
  shows "{pr. sidePrice mk side l e = Some pr} =
         {price x | m x. m \<in> set (markets e) \<and> x \<in> set (outcomes m) \<and> name x = side \<and> point x = l}"
proof -
  from assms obtain outs where m: "markets e = [\<lparr>market_key = mk, outcomes = outs\<rparr>]"
    and d: "\<forall>x\<in>set outs. description x = Some q" and k: "distinct (map outcomeKey outs)"
    unfolding entryOk_def by blast
  have ds: "distinct (map sideKey outs)" using d k by (rule distinct_sideKey)
  have "{price x | x. x \<in> set outs \<and> (name x = side \<and> point x = l)} =
        {pr. map_option price (find (\<lambda>x. name x = side \<and> point x = l) outs) = Some pr}"
    by (rule find_unique[OF ds, of _ "(side, l)"]) (simp add: sideKey_def)
  then show ?thesis by (simp add: sidePrice_def m)
qed

lemma pricesAt_entries:
  assumes "\<forall>e\<in>set (prop_bookmakers p). entryOk mk q e"
  shows "pricesAt p side l = {pr. \<exists>e\<in>set (prop_bookmakers p). sidePrice mk side l e = Some pr}"
proof -
  have "pricesAt p side l =
        (\<Union>e\<in>set (prop_bookmakers p).
           {price x | m x. m \<in> set (markets e) \<and> x \<in> set (outcomes m) \<and> name x = side \<and> point x = l})"
    unfolding pricesAt_def by blast
  also have "\<dots> = (\<Union>e\<in>set (prop_bookmakers p). {pr. sidePrice mk side l e = Some pr})"
  proof (rule SUP_cong)
    fix e assume "e \<in> set (prop_bookmakers p)"
    with assms have "entryOk mk q e" by blast
    from entry_prices[OF this, of side l]
    show "{price x | m x. m \<in> set (markets e) \<and> x \<in> set (outcomes m) \<and> name x = side \<and> point x = l} =
          {pr. sidePrice mk side l e = Some pr}" by (rule sym)
  qed (rule refl)
  also have "\<dots> = {pr. \<exists>e\<in>set (prop_bookmakers p). sidePrice mk side l e = Some pr}" by blast
  finally show ?thesis .
qed

lemma bestForLine_max:
  assumes "\<forall>e\<in>set (prop_bookmakers p). entryOk mk q e"
  shows "isMaxOf (over (bestForLine p mk l)) (pricesAt p ''Over'' l)"
    and "isMaxOf (under (bestForLine p mk l)) (pricesAt p ''Under'' l)"
proof -
  have e: "isMaxOf NegInfinity {}" by (simp add: isMaxOf_def)
  show "isMaxOf (over (bestForLine p mk l)) (pricesAt p ''Over'' l)"
    using isMaxOf_fold_raise[OF e, of "sidePrice mk ''Over'' l" "prop_bookmakers p"]
    by (simp add: bestForLine_def over_fold_bestStep pricesAt_entries[OF assms])
  show "isMaxOf (under (bestForLine p mk l)) (pricesAt p ''Under'' l)"
    using isMaxOf_fold_raise[OF e, of "sidePrice mk ''Under'' l" "prop_bookmakers p"]
    by (simp add: bestForLine_def under_fold_bestStep pricesAt_entries[OF assms])
qed

subsection \<open>Markets combined at fetch time\<close>

lemma combineOutcomes_distinct:
  "distinct (map outcomeKey std) \<Longrightarrow> distinct (map outcomeKey (combineOutcomes std alt))"
  by (simp add: combineOutcomes_def distinct_map_array_sort distinct_pushUnique_fold)

lemma mergeMarket_distinct:
  "distinct (map outcomeKey (outcomes sm)) \<Longrightarrow>
   distinct (map outcomeKey (outcomes (mergeMarket alts sm)))"
  by (simp add: mergeMarket_def combineOutcomes_distinct split: option.splits)

lemma combineMarkets_distinct:
  assumes "\<forall>m\<in>set (markets book). distinct (map outcomeKey (outcomes m))"
  shows "\<forall>m\<in>set (markets (combineMarkets book)). distinct (map outcomeKey (outcomes m))"
  using assms
  by (auto simp: combineMarkets_def standardMarkets_def alternateMarkets_def mergeMarket_distinct)

lemma mergeMarket_cases:
  "mergeMarket alts sm =
     (case find (matching sm) alts of
        None \<Rightarrow> sm
      | Some am \<Rightarrow> sm\<lparr>outcomes := combineOutcomes (outcomes sm) (outcomes am)\<rparr>)"
  by (simp add: mergeMarket_def)

lemma combineOutcomes_char:
  "\<exists>new. combineOutcomes std alt = array_sort by_point (std @ new) \<and> subseq new alt \<and>
         distinct (map outcomeKey new) \<and>
         outcomeKey ` set new = outcomeKey ` set alt - outcomeKey ` set std"
  using pushUnique_fold[of std alt] by (auto simp: combineOutcomes_def)

lemma find_skip: "\<not> P y \<Longrightarrow> find P (xs @ y # ys) = find P (xs @ ys)"
  by (induction xs) auto

subsection \<open>The search filter\<close>

lemma matchesQuery_iff:
  "matchesQuery lw (lw q) p \<longleftrightarrow>
     containsIgnoreCase lw (player p) q \<or> (team p \<noteq> [] \<and> containsIgnoreCase lw (team p) q)"
  by (simp add: matchesQuery_def containsIgnoreCase_def js_includes_iff)

lemma matchesQuery_team:
  assumes "lw [] = []"
  shows "matchesQuery lw (lw q) p \<longleftrightarrow>
         containsIgnoreCase lw (player p) q \<or> containsIgnoreCase lw (team p) q"
proof (cases "team p = []")
  case True
  have "containsIgnoreCase lw [] q \<Longrightarrow> containsIgnoreCase lw (player p) q"
    using assms by (simp add: containsIgnoreCase_def)
  with True show ?thesis by (auto simp: matchesQuery_iff)
next
  case False
  then show ?thesis by (simp add: matchesQuery_iff)
qed

lemma mset_filteredProps:
  assumes "lw [] = []"
  shows "mset (filteredProps lw lc fb mk props q sb) =
     filter_mset (\<lambda>p. containsIgnoreCase lw (player p) q \<or> containsIgnoreCase lw (team p) q)
       (mset props)"
proof (cases "q = []")
  case True
  then show ?thesis
    using assms
    by (cases sb) (simp_all add: filteredProps_def mset_array_sort containsIgnoreCase_def)
next
  case False
  then show ?thesis
    by (cases sb)
      (simp_all add: filteredProps_def mset_array_sort matchesQuery_team[of lw, OF assms])
qed

lemma mset_filteredProps_empty_query: "mset (filteredProps lw lc fb mk props [] sb) = mset props"
  by (cases sb) (simp_all add: filteredProps_def mset_array_sort)

subsection \<open>The example, evaluated\<close>

lemma demoProps_eval: "demoProps = [demoPropX, demoPropY]"
  by code_simp

lemma demoCombined_eval:
  "markets (combineMarkets demoA) = [\<lparr>market_key = ''player_points'', outcomes = demoMerged\<rparr>]"
  by code_simp

lemma demoA_distinct: "\<forall>m\<in>set (markets demoA). distinct (map outcomeKey (outcomes m))"
  by (simp add: demoA_def demoStandard_def demoAlternate_def outcomeKey_def)

lemma demo_matching: "find (matching demoStandard) (alternateMarkets demoA) = Some demoAlternate"
  by code_simp

lemma compareCodes_total: "compareCodes a b \<le> 0 \<or> compareCodes b a \<le> 0"
  by (induction a b rule: compareCodes.induct) auto

lemma compareCodes_trans:
  "compareCodes a b \<le> 0 \<Longrightarrow> compareCodes b c \<le> 0 \<Longrightarrow> compareCodes a c \<le> 0"
proof (induction a b arbitrary: c rule: compareCodes.induct)
  case 1
  then show ?case by simp
next
  case (2 y ys)
  then show ?case by (cases c) auto
next
  case (3 x xs)
  then show ?case by simp
next
  case (4 x xs y ys)
  show ?case
  proof (cases c)
    case Nil
    with 4 show ?thesis by (simp split: if_splits)
  next
    case (Cons z zs)
    show ?thesis
    proof (cases "x < y")
      case True
      with 4(2,3) Cons show ?thesis by (auto split: if_splits)
    next
      case False
      with 4(2) have e: "x = y" and ab: "compareCodes xs ys \<le> 0"
        by (simp_all split: if_splits)
      show ?thesis
      proof (cases "y < z")
        case True
        with e Cons show ?thesis by simp
      next
        case False2: False
        with 4(3) Cons have e2: "y = z" and bc: "compareCodes ys zs \<le> 0"
          by (simp_all split: if_splits)
        from 4(1)[OF _ _ ab bc] False e have "compareCodes xs zs \<le> 0" by simp
        with e e2 Cons show ?thesis by simp
      qed
    qed
  qed
qed

lemma codeUnitCompare_total: "codeUnitCompare a b \<le> 0 \<or> codeUnitCompare b a \<le> 0"
  unfolding codeUnitCompare_def by (rule compareCodes_total)

lemma codeUnitCompare_trans:
  "codeUnitCompare a b \<le> 0 \<Longrightarrow> codeUnitCompare b c \<le> 0 \<Longrightarrow> codeUnitCompare a c \<le> 0"
  unfolding codeUnitCompare_def by (rule compareCodes_trans)

section \<open>The claims\<close>

text \<open>
  Claim C1. Identity of an outcome is the triple \<open>outcomeKey\<close> of its name, point and
  description. In every player prop that \<open>playerProps\<close> builds, for every bookmaker entry
  and every market of the entry, no two outcomes of the market have the same triple; this
  needs no assumption on the payload. At fetch time, when no market of a bookmaker holds
  two outcomes with the same triple, no market of \<open>combineMarkets\<close> of that bookmaker does:
  not a merged one, not a standard market returned as it is, not a promoted alternate one;
  so it is for all the bookmakers of the combined game data.
\<close>

theorem outcome_lists_have_no_duplicates:
  "(\<forall>p\<in>set (playerProps (Some gd) std alt st).
      \<forall>e\<in>set (prop_bookmakers p). \<forall>m\<in>set (markets e). distinct (map outcomeKey (outcomes m))) \<and>
   ((\<forall>m\<in>set (markets book). distinct (map outcomeKey (outcomes m))) \<longrightarrow>
    (\<forall>m\<in>set (markets (combineMarkets book)). distinct (map outcomeKey (outcomes m)))) \<and>
   ((\<forall>b\<in>set (bookmakers responseData).
       \<forall>m\<in>set (markets b). distinct (map outcomeKey (outcomes m))) \<longrightarrow>
    (\<forall>b\<in>set (bookmakers (combineGameOdds responseData)).
       \<forall>m\<in>set (markets b). distinct (map outcomeKey (outcomes m))))"
proof -
  have 1: "\<forall>p\<in>set (playerProps (Some gd) std alt st).
      \<forall>e\<in>set (prop_bookmakers p). \<forall>m\<in>set (markets e). distinct (map outcomeKey (outcomes m))"
    using playerProps_entries[of _ gd std alt st] entryOk_distinct by blast
  have 2: "\<forall>m\<in>set (markets (combineMarkets b)). distinct (map outcomeKey (outcomes m))"
    if "\<forall>m\<in>set (markets b). distinct (map outcomeKey (outcomes m))" for b
    using that by (rule combineMarkets_distinct)
  have 3: "\<forall>b\<in>set (bookmakers (combineGameOdds responseData)).
       \<forall>m\<in>set (markets b). distinct (map outcomeKey (outcomes m))"
    if "\<forall>b\<in>set (bookmakers responseData).
       \<forall>m\<in>set (markets b). distinct (map outcomeKey (outcomes m))"
  proof -
    have "bookmakers (combineGameOdds responseData) = map combineMarkets (bookmakers responseData)"
      by (simp add: combineGameOdds_def)
    with that 2 show ?thesis by auto
  qed
  from 1 2 3 show ?thesis by (intro conjI impI) (assumption | simp)+
qed

text \<open>The theorem of C1 on the example payload.\<close>

theorem outcome_lists_have_no_duplicates_witness:
  "demoProps \<noteq> [] \<and>
   list_all (\<lambda>p. list_all (\<lambda>e. list_all (\<lambda>m. distinct (map outcomeKey (outcomes m))) (markets e))
                    (prop_bookmakers p)) demoProps \<and>
   list_all (\<lambda>m. distinct (map outcomeKey (outcomes m))) (markets demoA) \<and>
   markets (combineMarkets demoA) \<noteq> [] \<and>
   list_all (\<lambda>m. distinct (map outcomeKey (outcomes m))) (markets (combineMarkets demoA)) \<and>
   map outcomes (markets (combineMarkets demoA)) = [demoMerged]"
proof -
  have 1: "demoProps \<noteq> []" by (simp add: demoProps_eval)
  have 2: "markets (combineMarkets demoA) \<noteq> []" by (simp add: demoCombined_eval)
  have 3: "map outcomes (markets (combineMarkets demoA)) = [demoMerged]"
    by (simp add: demoCombined_eval)
  from outcome_lists_have_no_duplicates
         [of demoGame "''player_points''" "''player_points_alternate''" "''points''" demoA]
       demoA_distinct 1 2 3
  show ?thesis by (simp add: list_all_iff demoProps_def)
qed

text \<open>
  Claim C2. Every outcome list attached to a player prop is sorted ascending by
  \<open>point\<close>, and so is every list that merging a standard market with its alternate market
  produces: \<open>combineOutcomes\<close> for any two lists, hence the outcomes of \<open>mergeMarket\<close>
  whenever an alternate market matches the standard one.
\<close>

theorem outcome_lists_are_sorted:
  "(\<forall>p\<in>set (playerProps (Some gd) std alt st).
      \<forall>e\<in>set (prop_bookmakers p). \<forall>m\<in>set (markets e). sorted (map point (outcomes m))) \<and>
   sorted (map point (combineOutcomes standardOutcomes alternateOutcomes)) \<and>
   (find (matching sm) alts \<noteq> None \<longrightarrow>
      sorted (map point (outcomes (mergeMarket alts sm))))"
proof -
  have "\<forall>p\<in>set (playerProps (Some gd) std alt st).
      \<forall>e\<in>set (prop_bookmakers p). \<forall>m\<in>set (markets e). sorted (map point (outcomes m))"
    using playerProps_entries[of _ gd std alt st] entryOk_sorted by blast
  moreover have "sorted (map point (combineOutcomes xs ys))" for xs ys
    by (simp add: combineOutcomes_def sorted_array_sort_by_point)
  ultimately show ?thesis
    by (auto simp: mergeMarket_def)
qed

text \<open>The theorem of C2 on the example payload.\<close>

theorem outcome_lists_are_sorted_witness:
  "demoProps \<noteq> [] \<and>
   list_all (\<lambda>p. list_all (\<lambda>e. list_all (\<lambda>m. sorted (map point (outcomes m))) (markets e))
                    (prop_bookmakers p)) demoProps \<and>
   find (matching demoStandard) (alternateMarkets demoA) \<noteq> None \<and>
   outcomes (mergeMarket (alternateMarkets demoA) demoStandard) = demoMerged \<and>
   sorted (map point demoMerged)"
proof -
  have 1: "demoProps \<noteq> []" by (simp add: demoProps_eval)
  have 2: "find (matching demoStandard) (alternateMarkets demoA) \<noteq> None"
    by (simp add: demo_matching)
  have 3: "outcomes (mergeMarket (alternateMarkets demoA) demoStandard) = demoMerged"
    by code_simp
  from outcome_lists_are_sorted
         [of demoGame "''player_points''" "''player_points_alternate''" "''points''"
             "outcomes demoStandard" "outcomes demoAlternate" demoStandard "alternateMarkets demoA"]
       1 2 3
  show ?thesis by (simp add: list_all_iff demoProps_def)
qed

text \<open>
  Claim C3. The player names of the props are pairwise distinct, and they are exactly the
  non-empty descriptions found on an outcome of the selected standard or alternate market of
  some bookmaker; so the number of props is the number of such descriptions. An outcome
  with no description (absent, or the empty string, which the test \<^verbatim>\<open>!outcome.description\<close>
  treats alike) is in no prop: every outcome of a prop has the player of the prop as its
  description. A later bookmaker with data for a player is appended to the entries of the
  prop that exists: the keys of the entries of a prop are the keys of the bookmakers with
  data for its player, in the order of the payload.
\<close>

theorem one_prop_per_player:
  "distinct (map player (playerProps (Some gd) std alt st)) \<and>
   set (map player (playerProps (Some gd) std alt st)) =
     {q. q \<noteq> [] \<and> (\<exists>b\<in>set (bookmakers gd). \<exists>x\<in>set (selectedOutcomes std alt b). description x = Some q)} \<and>
   length (playerProps (Some gd) std alt st) =
     card {q. q \<noteq> [] \<and> (\<exists>b\<in>set (bookmakers gd). \<exists>x\<in>set (selectedOutcomes std alt b). description x = Some q)} \<and>
   (\<forall>p\<in>set (playerProps (Some gd) std alt st).
      \<forall>e\<in>set (prop_bookmakers p). \<forall>m\<in>set (markets e). \<forall>x\<in>set (outcomes m).
        description x = Some (player p)) \<and>
   (\<forall>p\<in>set (playerProps (Some gd) std alt st).
      map book_key (prop_bookmakers p) =
      map book_key (filter (hasData std alt (player p)) (bookmakers gd)))"
proof -
  let ?props = "playerProps (Some gd) std alt st"
  let ?S = "{q. q \<noteq> [] \<and> (\<exists>b\<in>set (bookmakers gd). \<exists>x\<in>set (selectedOutcomes std alt b). description x = Some q)}"
  have d: "distinct (map player ?props)" using playerProps_players by blast
  have "set (map player ?props) = {q. \<exists>b\<in>set (bookmakers gd). hasData std alt q b}"
    using playerProps_players by blast
  also have "\<dots> = ?S" by (auto simp: hasData_def list_ex_iff)
  finally have s: "set (map player ?props) = ?S" .
  have "length ?props = length (map player ?props)" by simp
  also have "\<dots> = card (set (map player ?props))" using d by (simp only: distinct_card)
  finally have l: "length ?props = card ?S" using s by simp
  have desc: "\<forall>p\<in>set ?props. \<forall>e\<in>set (prop_bookmakers p). \<forall>m\<in>set (markets e). \<forall>x\<in>set (outcomes m).
        description x = Some (player p)"
    using playerProps_entries[of _ gd std alt st] entryOk_description by blast
  have bk: "map book_key (prop_bookmakers p) =
      map book_key (filter (hasData std alt (player p)) (bookmakers gd))" if "p \<in> set ?props" for p
  proof -
    from playerProps_member[OF that] obtain b rest where
      f: "filter (hasData std alt (player p)) (bookmakers gd) = b # rest" and
      p: "p = \<lparr>player = player p, team = home_team gd, statType = st,
                line = overLine (array_sort by_point (outcomesFor std alt (player p) b)),
                prop_bookmakers = map (entryFor std alt (player p)) (b # rest)\<rparr>"
      by blast
    have "prop_bookmakers p = map (entryFor std alt (player p)) (b # rest)"
      by (subst p) simp
    with f show ?thesis by (simp add: entryFor_def bookmakerEntry_def)
  qed
  from d s l desc bk show ?thesis by (intro conjI ballI) (assumption | simp)+
qed

text \<open>The theorem of C3 on the example payload.\<close>

theorem one_prop_per_player_witness:
  "map player demoProps = [''X'', ''Y''] \<and> length demoProps = 2 \<and>
   card {q. q \<noteq> [] \<and> (\<exists>b\<in>set (bookmakers demoGame).
              \<exists>x\<in>set (selectedOutcomes ''player_points'' ''player_points_alternate'' b).
                description x = Some q)} = 2 \<and>
   list_all (\<lambda>p. map book_key (prop_bookmakers p) =
                  map book_key (filter (hasData ''player_points'' ''player_points_alternate'' (player p))
                                  (bookmakers demoGame))) demoProps \<and>
   map (\<lambda>p. map book_key (prop_bookmakers p)) demoProps = [[''draftkings'', ''fanduel''], [''draftkings'']]"
proof -
  have 1: "map player demoProps = [''X'', ''Y'']"
    by (simp add: demoProps_eval demoPropX_def demoPropY_def)
  have 2: "length demoProps = 2" by (simp add: demoProps_eval)
  have 3: "map (\<lambda>p. map book_key (prop_bookmakers p)) demoProps = [[''draftkings'', ''fanduel''], [''draftkings'']]"
    by (simp add: demoProps_eval demoPropX_def demoPropY_def)
  from one_prop_per_player
         [of demoGame "''player_points''" "''player_points_alternate''" "''points''"] 1 2 3
  show ?thesis by (simp add: list_all_iff demoProps_def)
qed

text \<open>
  Claim C4. For a prop built by \<open>playerProps\<close>, read under the standard market key (the
  key its entries carry), for every line value and each of the two sides, the best price
  that \<^verbatim>\<open>renderTableView\<close> computes is the maximum of the prices of the outcomes with that
  side and that point over all bookmaker entries of the prop: it is one of these prices and
  none of them exceeds it, and it is \<^verbatim>\<open>-Infinity\<close> exactly when there is no such outcome.
  The same holds for every entry of the table \<open>bestOddsPerLine\<close>.
\<close>

theorem best_price_is_maximum:
  assumes "p \<in> set (playerProps (Some gd) std alt st)"
  shows "isMaxOf (over (bestForLine p std lineVal)) (pricesAt p ''Over'' lineVal) \<and>
         isMaxOf (under (bestForLine p std lineVal)) (pricesAt p ''Under'' lineVal) \<and>
         (\<forall>entry\<in>set (bestOddsPerLine p std).
            isMaxOf (over (snd entry)) (pricesAt p ''Over'' (fst entry)) \<and>
            isMaxOf (under (snd entry)) (pricesAt p ''Under'' (fst entry)))"
proof -
  have ok: "\<forall>e\<in>set (prop_bookmakers p). entryOk std (player p) e"
    using assms by (rule playerProps_entries)
  have "isMaxOf (over (bestForLine p std l)) (pricesAt p ''Over'' l)" for l
    using ok by (rule bestForLine_max)
  moreover have "isMaxOf (under (bestForLine p std l)) (pricesAt p ''Under'' l)" for l
    using ok by (rule bestForLine_max)
  ultimately show ?thesis by (auto simp: bestOddsPerLine_def)
qed

text \<open>The theorem of C4 on the example payload.\<close>

theorem best_price_is_maximum_witness:
  "demoPropX \<in> set (playerProps (Some demoGame) ''player_points'' ''player_points_alternate'' ''points'') \<and>
   over (bestForLine demoPropX ''player_points'' (51/2)) = Num 120 \<and>
   isMaxOf (Num 120) (pricesAt demoPropX ''Over'' (51/2)) \<and>
   under (bestForLine demoPropX ''player_points'' (51/2)) = Num (- 105) \<and>
   isMaxOf (Num (- 105)) (pricesAt demoPropX ''Under'' (51/2)) \<and>
   over (bestForLine demoPropX ''player_points'' (41/2)) = Num (- 250) \<and>
   under (bestForLine demoPropX ''player_points'' (41/2)) = NegInfinity \<and>
   pricesAt demoPropX ''Under'' (41/2) = {} \<and>
   map fst (bestOddsPerLine demoPropX ''player_points'') = [41/2, 51/2]"
proof -
  have m: "demoPropX \<in> set (playerProps (Some demoGame) ''player_points'' ''player_points_alternate'' ''points'')"
    using demoProps_eval by (simp add: demoProps_def)
  have 1: "over (bestForLine demoPropX ''player_points'' (51/2)) = Num 120" by code_simp
  have 2: "under (bestForLine demoPropX ''player_points'' (51/2)) = Num (- 105)" by code_simp
  have 3: "over (bestForLine demoPropX ''player_points'' (41/2)) = Num (- 250)" by code_simp
  have 4: "under (bestForLine demoPropX ''player_points'' (41/2)) = NegInfinity" by code_simp
  have 5: "map fst (bestOddsPerLine demoPropX ''player_points'') = [41/2, 51/2]" by code_simp
  from best_price_is_maximum[OF m, of "51/2"] best_price_is_maximum[OF m, of "41/2"] m 1 2 3 4 5
  show ?thesis by (simp add: isMaxOf_def)
qed

text \<open>
  Claim C5. Every prop has the home team of the event as its team. Its first bookmaker
  entry comes from the first bookmaker of the payload with data for the player; the entry
  holds that bookmaker's outcomes for the player, deduplicated and sorted ascending by
  point, and the line of the prop is the point of the first \<^verbatim>\<open>"Over"\<close> outcome of that
  sorted list, or \<open>0\<close> when the list has none.
\<close>

theorem new_prop_team_and_line:
  assumes "p \<in> set (playerProps (Some gd) std alt st)"
  shows "team p = home_team gd \<and>
         (\<exists>b e rest outs.
            find (hasData std alt (player p)) (bookmakers gd) = Some b \<and>
            prop_bookmakers p = e # rest \<and> book_key e = book_key b \<and>
            markets e = [\<lparr>market_key = std, outcomes = outs\<rparr>] \<and>
            outs = array_sort by_point (outcomesFor std alt (player p) b) \<and>
            sorted (map point outs) \<and>
            line p = (case find (\<lambda>x. name x = ''Over'') outs of None \<Rightarrow> 0 | Some x \<Rightarrow> point x))"
proof -
  from playerProps_member[OF assms] obtain b rest where
    f: "filter (hasData std alt (player p)) (bookmakers gd) = b # rest" and
    p: "p = \<lparr>player = player p, team = home_team gd, statType = st,
                line = overLine (array_sort by_point (outcomesFor std alt (player p) b)),
                prop_bookmakers = map (entryFor std alt (player p)) (b # rest)\<rparr>"
    by blast
  let ?outs = "array_sort by_point (outcomesFor std alt (player p) b)"
  have 1: "team p = home_team gd" by (subst p) simp
  have 2: "find (hasData std alt (player p)) (bookmakers gd) = Some b"
    using f by (rule find_filter_Cons)
  have 3: "prop_bookmakers p = entryFor std alt (player p) b # map (entryFor std alt (player p)) rest"
    by (subst p) simp
  have 4: "book_key (entryFor std alt (player p) b) = book_key b"
    by (simp add: entryFor_def bookmakerEntry_def)
  have 5: "markets (entryFor std alt (player p) b) = [\<lparr>market_key = std, outcomes = ?outs\<rparr>]"
    by (simp add: entryFor_def bookmakerEntry_def)
  have 6: "sorted (map point ?outs)" by (rule sorted_array_sort_by_point)
  have 7: "line p = (case find (\<lambda>x. name x = ''Over'') ?outs of None \<Rightarrow> 0 | Some x \<Rightarrow> point x)"
    by (subst p) (simp add: overLine_def)
  from 1 2 3 4 5 6 7 show ?thesis by (intro conjI exI) (assumption | rule refl)+
qed

text \<open>The theorem of C5 on the example payload.\<close>

theorem new_prop_team_and_line_witness:
  "demoPropX \<in> set (playerProps (Some demoGame) ''player_points'' ''player_points_alternate'' ''points'') \<and>
   team demoPropX = home_team demoGame \<and> team demoPropX = ''Lakers'' \<and>
   find (hasData ''player_points'' ''player_points_alternate'' ''X'') (bookmakers demoGame) = Some demoA \<and>
   array_sort by_point (outcomesFor ''player_points'' ''player_points_alternate'' ''X'' demoA) =
     [\<lparr>name = ''Over'', point = 41 / 2, price = - 250, description = Some ''X''\<rparr>,
      \<lparr>name = ''Over'', point = 51 / 2, price = 120, description = Some ''X''\<rparr>,
      \<lparr>name = ''Under'', point = 51 / 2, price = - 150, description = Some ''X''\<rparr>] \<and>
   line demoPropX = 41/2"
proof -
  have m: "demoPropX \<in> set (playerProps (Some demoGame) ''player_points'' ''player_points_alternate'' ''points'')"
    using demoProps_eval by (simp add: demoProps_def)
  have f: "find (hasData ''player_points'' ''player_points_alternate'' ''X'') (bookmakers demoGame) = Some demoA"
    by code_simp
  have s: "array_sort by_point (outcomesFor ''player_points'' ''player_points_alternate'' ''X'' demoA) =
     [\<lparr>name = ''Over'', point = 41 / 2, price = - 250, description = Some ''X''\<rparr>,
      \<lparr>name = ''Over'', point = 51 / 2, price = 120, description = Some ''X''\<rparr>,
      \<lparr>name = ''Under'', point = 51 / 2, price = - 150, description = Some ''X''\<rparr>]"
    by code_simp
  have t: "team demoPropX = ''Lakers''" by (simp add: demoPropX_def)
  have l: "line demoPropX = 41/2" by (simp add: demoPropX_def)
  from new_prop_team_and_line[OF m] have "team demoPropX = home_team demoGame" by (rule conjunct1)
  with m f s t l show ?thesis by (intro conjI)
qed

text \<open>
  Claim C6. A bookmaker with no standard market and at least one alternate market keeps
  its alternate markets, outcomes unchanged, each under its key with \<^verbatim>\<open>_alternate\<close>
  removed; for a key that is an identifier free of \<^verbatim>\<open>_alternate\<close> followed by the suffix
  \<^verbatim>\<open>_alternate\<close>, what remains is the identifier. Any other bookmaker keeps its
  standard markets, each merged with the first alternate market whose key so reduced is
  the standard key: a standard market with no such alternate market is unchanged;
  otherwise the key stays, and the outcomes are the standard outcomes followed by the
  alternate outcomes whose triple is new (each triple once, in the order of the alternate
  market), the whole sorted ascending by point.
\<close>

theorem alternates_promoted_or_merged:
  "(standardMarkets book = [] \<and> alternateMarkets book \<noteq> [] \<longrightarrow>
      map outcomes (markets (combineMarkets book)) = map outcomes (alternateMarkets book) \<and>
      map market_key (markets (combineMarkets book)) =
        map (\<lambda>m. standardKey (market_key m)) (alternateMarkets book)) \<and>
   (\<not> js_includes base ''_alternate'' \<longrightarrow> standardKey (base @ ''_alternate'') = base) \<and>
   (\<not> (standardMarkets book = [] \<and> alternateMarkets book \<noteq> []) \<longrightarrow>
      markets (combineMarkets book) =
        map (mergeMarket (alternateMarkets book)) (standardMarkets book)) \<and>
   (find (matching sm) alts = None \<longrightarrow> mergeMarket alts sm = sm) \<and>
   (\<forall>am. find (matching sm) alts = Some am \<longrightarrow>
      market_key (mergeMarket alts sm) = market_key sm \<and>
      sorted (map point (outcomes (mergeMarket alts sm))) \<and>
      (\<exists>new. outcomes (mergeMarket alts sm) = array_sort by_point (outcomes sm @ new) \<and>
             subseq new (outcomes am) \<and> distinct (map outcomeKey new) \<and>
             outcomeKey ` set new =
               outcomeKey ` set (outcomes am) - outcomeKey ` set (outcomes sm)))"
proof -
  have 1: "standardMarkets book = [] \<and> alternateMarkets book \<noteq> [] \<longrightarrow>
      map outcomes (markets (combineMarkets book)) = map outcomes (alternateMarkets book) \<and>
      map market_key (markets (combineMarkets book)) =
        map (\<lambda>m. standardKey (market_key m)) (alternateMarkets book)"
    by (simp add: combineMarkets_def comp_def)
  have 2: "\<not> js_includes base ''_alternate'' \<longrightarrow> standardKey (base @ ''_alternate'') = base"
    by (simp add: standardKey_suffix)
  have 3: "\<not> (standardMarkets book = [] \<and> alternateMarkets book \<noteq> []) \<longrightarrow>
      markets (combineMarkets book) =
        map (mergeMarket (alternateMarkets book)) (standardMarkets book)"
    by (auto simp: combineMarkets_def)
  have 4: "find (matching sm) alts = None \<longrightarrow> mergeMarket alts sm = sm"
    by (simp add: mergeMarket_cases)
  have 5: "market_key (mergeMarket alts sm) = market_key sm \<and>
      sorted (map point (outcomes (mergeMarket alts sm))) \<and>
      (\<exists>new. outcomes (mergeMarket alts sm) = array_sort by_point (outcomes sm @ new) \<and>
             subseq new (outcomes am) \<and> distinct (map outcomeKey new) \<and>
             outcomeKey ` set new =
               outcomeKey ` set (outcomes am) - outcomeKey ` set (outcomes sm))"
    if "find (matching sm) alts = Some am" for am
  proof -
    from that have m: "mergeMarket alts sm = sm\<lparr>outcomes := combineOutcomes (outcomes sm) (outcomes am)\<rparr>"
      by (simp add: mergeMarket_cases)
    have "sorted (map point (combineOutcomes (outcomes sm) (outcomes am)))"
      by (simp add: combineOutcomes_def sorted_array_sort_by_point)
    with combineOutcomes_char[of "outcomes sm" "outcomes am"] show ?thesis
      by (simp add: m)
  qed
  from 1 2 3 4 5 show ?thesis by (intro conjI allI impI) (assumption | simp)+
qed

text \<open>The theorem of C6 on the example payload.\<close>

theorem alternates_promoted_or_merged_witness:
  "standardMarkets demoAltOnly = [] \<and> alternateMarkets demoAltOnly = [demoAlternate] \<and>
   map outcomes (markets (combineMarkets demoAltOnly)) = [outcomes demoAlternate] \<and>
   map market_key (markets (combineMarkets demoAltOnly)) = [''player_points''] \<and>
   standardMarkets demoA = [demoStandard] \<and>
   markets (combineMarkets demoA) = [mergeMarket (alternateMarkets demoA) demoStandard] \<and>
   find (matching demoStandard) (alternateMarkets demoA) = Some demoAlternate \<and>
   market_key (mergeMarket (alternateMarkets demoA) demoStandard) = ''player_points'' \<and>
   sorted (map point (outcomes (mergeMarket (alternateMarkets demoA) demoStandard))) \<and>
   find (matching demoStandard) [demoRebounds] = None \<and>
   mergeMarket [demoRebounds] demoStandard = demoStandard"
proof -
  have 1: "standardMarkets demoAltOnly = []" by code_simp
  have 2: "alternateMarkets demoAltOnly = [demoAlternate]" by code_simp
  have 3: "\<not> js_includes ''player_points'' ''_alternate''" by simp
  have 4: "standardMarkets demoA = [demoStandard]" by code_simp
  have 5: "find (matching demoStandard) (alternateMarkets demoA) = Some demoAlternate"
    by (rule demo_matching)
  have 6: "find (matching demoStandard) [demoRebounds] = None" by code_simp
  have 7: "market_key demoAlternate = ''player_points'' @ ''_alternate''"
    by (simp add: demoAlternate_def)
  have 8: "market_key demoStandard = ''player_points''" by (simp add: demoStandard_def)
  from alternates_promoted_or_merged
         [of demoAltOnly "''player_points''" demoStandard "alternateMarkets demoA"]
       alternates_promoted_or_merged[of demoA "''player_points''" demoStandard "[demoRebounds]"]
       1 2 3 4 5 6 7 8
  show ?thesis by simp
qed

text \<open>
  Claim C10. Take a bookmaker with at least one standard market and an alternate market
  whose reduced key is the key of none of the standard markets. The result of
  \<open>combineMarkets\<close> is the one obtained with that alternate market taken out of the
  payload, and the keys of the resulting markets are the keys of the standard markets: the
  alternate market leaves no trace.
\<close>

theorem unmatched_alternate_discarded:
  assumes alt: "isAlternate am"
    and std: "\<exists>sm\<in>set (pre @ post). \<not> isAlternate sm"
    and unmatched: "\<forall>sm\<in>set (pre @ post). \<not> isAlternate sm \<longrightarrow> \<not> matching sm am"
  shows "combineMarkets (book\<lparr>markets := pre @ am # post\<rparr>) =
         combineMarkets (book\<lparr>markets := pre @ post\<rparr>) \<and>
         map market_key (markets (combineMarkets (book\<lparr>markets := pre @ am # post\<rparr>))) =
         map market_key (filter (\<lambda>m. \<not> isAlternate m) (pre @ post))"
proof -
  let ?b1 = "book\<lparr>markets := pre @ am # post\<rparr>" and ?b2 = "book\<lparr>markets := pre @ post\<rparr>"
  have s: "standardMarkets ?b1 = standardMarkets ?b2" using alt by (simp add: standardMarkets_def)
  have s2: "standardMarkets ?b2 = filter (\<lambda>m. \<not> isAlternate m) (pre @ post)"
    by (simp add: standardMarkets_def)
  have ne: "standardMarkets ?b2 \<noteq> []" using std by (auto simp: standardMarkets_def filter_empty_conv)
  have a1: "alternateMarkets ?b1 = filter isAlternate pre @ am # filter isAlternate post"
    using alt by (simp add: alternateMarkets_def)
  have a2: "alternateMarkets ?b2 = filter isAlternate pre @ filter isAlternate post"
    by (simp add: alternateMarkets_def)
  have m: "mergeMarket (alternateMarkets ?b1) sm = mergeMarket (alternateMarkets ?b2) sm"
    if "sm \<in> set (standardMarkets ?b2)" for sm
  proof -
    from that unmatched have "\<not> matching sm am" by (auto simp: standardMarkets_def)
    then show ?thesis by (simp add: mergeMarket_cases a1 a2 find_skip)
  qed
  have k: "market_key (mergeMarket alts sm) = market_key sm" for alts sm
    by (simp add: mergeMarket_cases split: option.splits)
  have eq: "combineMarkets ?b1 = combineMarkets ?b2"
    using ne m by (simp add: combineMarkets_def s cong: map_cong)
  have "map market_key (markets (combineMarkets ?b2)) = map market_key (standardMarkets ?b2)"
    using ne by (simp add: combineMarkets_def k comp_def)
  with eq s2 show ?thesis by simp
qed

text \<open>The theorem of C10 on the example payload.\<close>

theorem unmatched_alternate_discarded_witness:
  "isAlternate demoRebounds \<and> \<not> isAlternate demoStandard \<and> \<not> matching demoStandard demoRebounds \<and>
   combineMarkets (demoA\<lparr>markets := [demoStandard, demoRebounds, demoAlternate]\<rparr>) =
   combineMarkets (demoA\<lparr>markets := [demoStandard, demoAlternate]\<rparr>) \<and>
   map market_key (markets (combineMarkets (demoA\<lparr>markets := [demoStandard, demoRebounds, demoAlternate]\<rparr>))) =
     [''player_points'']"
proof -
  have 1: "isAlternate demoRebounds" by code_simp
  have 2: "\<not> isAlternate demoStandard" by code_simp
  have 3: "\<not> matching demoStandard demoRebounds" by code_simp
  have 4: "isAlternate demoAlternate" by code_simp
  have h2: "\<exists>sm\<in>set ([demoStandard] @ [demoAlternate]). \<not> isAlternate sm" using 2 by simp
  have h3: "\<forall>sm\<in>set ([demoStandard] @ [demoAlternate]). \<not> isAlternate sm \<longrightarrow> \<not> matching sm demoRebounds"
    using 3 4 by simp
  have 5: "filter (\<lambda>m. \<not> isAlternate m) ([demoStandard] @ [demoAlternate]) = [demoStandard]"
    using 2 4 by simp
  have 6: "market_key demoStandard = ''player_points''" by (simp add: demoStandard_def)
  note U = unmatched_alternate_discarded[OF 1 h2 h3, of demoA]
  have a: "combineMarkets (demoA\<lparr>markets := [demoStandard, demoRebounds, demoAlternate]\<rparr>) =
           combineMarkets (demoA\<lparr>markets := [demoStandard, demoAlternate]\<rparr>)"
    using U[THEN conjunct1] by simp
  have "map market_key (markets (combineMarkets (demoA\<lparr>markets := [demoStandard] @ demoRebounds # [demoAlternate]\<rparr>))) =
        map market_key [demoStandard]"
    using U[THEN conjunct2] by (simp only: 5)
  then have b: "map market_key (markets (combineMarkets (demoA\<lparr>markets := [demoStandard, demoRebounds, demoAlternate]\<rparr>))) =
        [''player_points'']"
    using 6 by simp
  from 1 2 3 a b show ?thesis by (intro conjI)
qed

text \<open>
  Claim C7. \<open>containsIgnoreCase toLowerCase s q\<close> says that the lower-cased query occurs
  as a contiguous run in the lower-cased string, for the lower-casing of the language, which
  is a parameter. With the empty query the result is a rearrangement of the whole input.
  For any lower-casing that leaves the empty string empty, as \<^verbatim>\<open>toLowerCase\<close> does, and
  whatever the sort mode, the filtered list holds exactly the props whose player name or
  team name contains the query in that sense, each as often as the input does; and when no
  prop matches, the result is empty.
\<close>

theorem search_filter_keeps_matches:
  "mset (filteredProps lw lc fb mk props [] sb) = mset props \<and>
   (lw [] = [] \<longrightarrow>
      mset (filteredProps lw lc fb mk props q sb) =
        filter_mset (\<lambda>p. containsIgnoreCase lw (player p) q \<or> containsIgnoreCase lw (team p) q)
          (mset props) \<and>
      set (filteredProps lw lc fb mk props q sb) =
        {p \<in> set props. containsIgnoreCase lw (player p) q \<or> containsIgnoreCase lw (team p) q} \<and>
      ((\<forall>p\<in>set props. \<not> containsIgnoreCase lw (player p) q \<and>
                         \<not> containsIgnoreCase lw (team p) q) \<longrightarrow>
         filteredProps lw lc fb mk props q sb = []))"
proof -
  let ?P = "\<lambda>p. containsIgnoreCase lw (player p) q \<or> containsIgnoreCase lw (team p) q"
  let ?r = "filteredProps lw lc fb mk props q sb"
  have 0: "mset (filteredProps lw lc fb mk props [] sb) = mset props"
    by (rule mset_filteredProps_empty_query)
  have rest: "mset ?r = filter_mset ?P (mset props) \<and> set ?r = {p \<in> set props. ?P p} \<and>
      ((\<forall>p\<in>set props. \<not> containsIgnoreCase lw (player p) q \<and>
                         \<not> containsIgnoreCase lw (team p) q) \<longrightarrow> ?r = [])"
    if e: "lw [] = []"
  proof -
    have 1: "mset ?r = filter_mset ?P (mset props)"
      using e by (rule mset_filteredProps)
    have "set ?r = set_mset (mset ?r)" by simp
    also have "\<dots> = {p \<in> set props. ?P p}" by (simp only: 1) auto
    finally have 2: "set ?r = {p \<in> set props. ?P p}" .
    have 3: "?r = []"
      if "\<forall>p\<in>set props. \<not> containsIgnoreCase lw (player p) q \<and>
                         \<not> containsIgnoreCase lw (team p) q"
    proof -
      from that 2 have "set ?r = {}" by auto
      then show ?thesis by simp
    qed
    from 1 2 3 show ?thesis by (intro conjI impI) (assumption | simp)+
  qed
  from 0 rest show ?thesis by (intro conjI impI) (assumption | simp)+
qed

text \<open>The theorem of C7 on the example payload.\<close>

theorem search_filter_keeps_matches_witness:
  "asciiLowerCase [] = [] \<and>
   filteredProps asciiLowerCase codeUnitCompare noBestOdds ''player_points'' demoProps ''zz'' Name = [] \<and>
   set (filteredProps asciiLowerCase codeUnitCompare noBestOdds ''player_points'' demoProps ''x'' Name) =
     {demoPropX} \<and>
   set (filteredProps asciiLowerCase codeUnitCompare noBestOdds ''player_points'' demoProps ''LAKE''
          Name) = {demoPropX, demoPropY} \<and>
   mset (filteredProps asciiLowerCase codeUnitCompare noBestOdds ''player_points'' demoProps []
           BestOdds) = mset demoProps"
proof -
  have h: "asciiLowerCase [] = []" by (simp add: asciiLowerCase_def)
  note E = search_filter_keeps_matches
             [of asciiLowerCase codeUnitCompare noBestOdds "''player_points''" demoProps]
  have c: "containsIgnoreCase asciiLowerCase s q =
           js_includes (asciiLowerCase s) (asciiLowerCase q)" for s q
    by (simp add: containsIgnoreCase_def js_includes_iff)
  have x1: "\<not> containsIgnoreCase asciiLowerCase (player demoPropX) ''zz''"
    "\<not> containsIgnoreCase asciiLowerCase (team demoPropX) ''zz''"
    "\<not> containsIgnoreCase asciiLowerCase (player demoPropY) ''zz''"
    "\<not> containsIgnoreCase asciiLowerCase (team demoPropY) ''zz''"
    by (simp_all add: demoPropX_def demoPropY_def c asciiLowerCase_def asciiLowerChar_def)
  have x2: "containsIgnoreCase asciiLowerCase (player demoPropX) ''x''"
    "\<not> containsIgnoreCase asciiLowerCase (player demoPropY) ''x''"
    "\<not> containsIgnoreCase asciiLowerCase (team demoPropY) ''x''"
    by (simp_all add: demoPropX_def demoPropY_def c asciiLowerCase_def asciiLowerChar_def)
  have x3: "containsIgnoreCase asciiLowerCase (team demoPropX) ''LAKE''"
    "containsIgnoreCase asciiLowerCase (team demoPropY) ''LAKE''"
    by (simp_all add: demoPropX_def demoPropY_def c asciiLowerCase_def asciiLowerChar_def)
  have 1: "\<forall>p\<in>set demoProps. \<not> containsIgnoreCase asciiLowerCase (player p) ''zz'' \<and>
                             \<not> containsIgnoreCase asciiLowerCase (team p) ''zz''"
    using x1 by (simp add: demoProps_eval)
  have 2: "{p \<in> set demoProps. containsIgnoreCase asciiLowerCase (player p) ''x'' \<or>
                               containsIgnoreCase asciiLowerCase (team p) ''x''} = {demoPropX}"
    using x2 by (auto simp: demoProps_eval)
  have 3: "{p \<in> set demoProps. containsIgnoreCase asciiLowerCase (player p) ''LAKE'' \<or>
                               containsIgnoreCase asciiLowerCase (team p) ''LAKE''} =
           {demoPropX, demoPropY}"
    using x3 by (auto simp: demoProps_eval)
  have a: "filteredProps asciiLowerCase codeUnitCompare noBestOdds ''player_points'' demoProps ''zz''
             Name = []"
    using E[where q = "''zz''" and sb = Name, THEN conjunct2, THEN mp, OF h, THEN conjunct2,
            THEN conjunct2] 1 by (rule mp)
  have b: "set (filteredProps asciiLowerCase codeUnitCompare noBestOdds ''player_points'' demoProps
                  ''x'' Name) = {demoPropX}"
    using E[where q = "''x''" and sb = Name, THEN conjunct2, THEN mp, OF h, THEN conjunct2,
            THEN conjunct1] 2 by (rule trans)
  have d: "set (filteredProps asciiLowerCase codeUnitCompare noBestOdds ''player_points'' demoProps
                  ''LAKE'' Name) = {demoPropX, demoPropY}"
    using E[where q = "''LAKE''" and sb = Name, THEN conjunct2, THEN mp, OF h, THEN conjunct2,
            THEN conjunct1] 3 by (rule trans)
  have e: "mset (filteredProps asciiLowerCase codeUnitCompare noBestOdds ''player_points'' demoProps []
                   BestOdds) = mset demoProps"
    by (rule E[where sb = BestOdds, THEN conjunct1])
  from h a b d e show ?thesis by (intro conjI)
qed

text \<open>
  Claim C8. In the mode \<^verbatim>\<open>"best-odds"\<close> the result is ordered by the best
  \<^verbatim>\<open>"Over"\<close> price, descending as plain integers, a prop with no best price counting
  as \<open>0\<close>; this holds for any \<^verbatim>\<open>findBestOdds\<close>. In the mode \<^verbatim>\<open>"name"\<close> the result is
  ordered by the comparison of player names that \<^verbatim>\<open>localeCompare\<close> makes, provided this
  comparison is total and transitive, as the dictionary order of a locale is.
\<close>

theorem sort_modes:
  "sorted_wrt (\<lambda>a b. bestOverOdds fb mk a \<ge> bestOverOdds fb mk b)
     (filteredProps lw lc fb mk props q BestOdds) \<and>
   ((\<forall>a b. lc a b \<le> 0 \<or> lc b a \<le> 0) \<and> (\<forall>a b c. lc a b \<le> 0 \<and> lc b c \<le> 0 \<longrightarrow> lc a c \<le> 0) \<longrightarrow>
     sorted_wrt (\<lambda>a b. lc (player a) (player b) \<le> 0) (filteredProps lw lc fb mk props q Name))"
proof -
  have "sorted_wrt (\<lambda>a b. oddsOrZero (fb b mk ''Over'') - oddsOrZero (fb a mk ''Over'') \<le> 0)
          (array_sort (\<lambda>a b. oddsOrZero (fb b mk ''Over'') - oddsOrZero (fb a mk ''Over'')) xs)" for xs
    by (rule sorted_wrt_array_sort) auto
  then have 1: "sorted_wrt (\<lambda>a b. bestOverOdds fb mk a \<ge> bestOverOdds fb mk b)
     (filteredProps lw lc fb mk props q BestOdds)"
    by (simp add: filteredProps_def bestOverOdds_def Let_def)
  have 2: "sorted_wrt (\<lambda>a b. lc (player a) (player b) \<le> 0) (filteredProps lw lc fb mk props q Name)"
    if tot: "\<forall>a b. lc a b \<le> 0 \<or> lc b a \<le> 0" and tr: "\<forall>a b c. lc a b \<le> 0 \<and> lc b c \<le> 0 \<longrightarrow> lc a c \<le> 0"
  proof -
    have srt: "sorted_wrt (\<lambda>a b. lc (player a) (player b) \<le> 0) (array_sort (\<lambda>a b. lc (player a) (player b)) xs)" for xs
    proof (rule sorted_wrt_array_sort)
      show "lc (player a) (player b) \<le> 0 \<or> lc (player b) (player a) \<le> 0" for a b using tot by blast
      show "lc (player a) (player b) \<le> 0 \<Longrightarrow> lc (player b) (player c) \<le> 0 \<Longrightarrow> lc (player a) (player c) \<le> 0" for a b c
        using tr by blast
    qed
    show ?thesis by (simp add: filteredProps_def Let_def srt)
  qed
  from 1 2 show ?thesis by blast
qed

text \<open>The theorem of C8 on the example payload.\<close>

theorem sort_modes_witness:
  "filteredProps asciiLowerCase codeUnitCompare demoFindBestOdds ''player_points'' [demoPropY, demoPropX] [] BestOdds =
     [demoPropX, demoPropY] \<and>
   sorted_wrt (\<lambda>a b. bestOverOdds demoFindBestOdds ''player_points'' a \<ge>
                     bestOverOdds demoFindBestOdds ''player_points'' b) [demoPropX, demoPropY] \<and>
   filteredProps asciiLowerCase codeUnitCompare demoFindBestOdds ''player_points'' [demoPropY, demoPropX] [] Name =
     [demoPropX, demoPropY] \<and>
   sorted_wrt (\<lambda>a b. codeUnitCompare (player a) (player b) \<le> 0) [demoPropX, demoPropY]"
proof -
  have tot: "\<forall>a b. codeUnitCompare a b \<le> 0 \<or> codeUnitCompare b a \<le> 0"
    using codeUnitCompare_total by blast
  have tr: "\<forall>a b c. codeUnitCompare a b \<le> 0 \<and> codeUnitCompare b c \<le> 0 \<longrightarrow> codeUnitCompare a c \<le> 0"
    using codeUnitCompare_trans by blast
  have 1: "filteredProps asciiLowerCase codeUnitCompare demoFindBestOdds ''player_points'' [demoPropY, demoPropX] [] BestOdds =
     [demoPropX, demoPropY]" by code_simp
  have 2: "filteredProps asciiLowerCase codeUnitCompare demoFindBestOdds ''player_points'' [demoPropY, demoPropX] [] Name =
     [demoPropX, demoPropY]" by code_simp
  note S = sort_modes[of demoFindBestOdds "''player_points''" asciiLowerCase codeUnitCompare
                    "[demoPropY, demoPropX]" "[]"]
  have 3: "sorted_wrt (\<lambda>a b. bestOverOdds demoFindBestOdds ''player_points'' a \<ge>
                     bestOverOdds demoFindBestOdds ''player_points'' b) [demoPropX, demoPropY]"
    using S[THEN conjunct1] by (simp only: 1)
  have "sorted_wrt (\<lambda>a b. codeUnitCompare (player a) (player b) \<le> 0)
          (filteredProps asciiLowerCase codeUnitCompare demoFindBestOdds ''player_points'' [demoPropY, demoPropX] [] Name)"
    using S[THEN conjunct2] tot tr by blast
  then have 4: "sorted_wrt (\<lambda>a b. codeUnitCompare (player a) (player b) \<le> 0) [demoPropX, demoPropY]"
    by (simp only: 2)
  from 1 3 2 4 show ?thesis by (intro conjI)
qed

text \<open>
  What the code does when the closure is fresh, that is when the render that started the
  request saw no selection, as at mount: the events are stored sorted ascending by commence
  time, and the first of them, whose commence time is the minimum, is selected and passed to
  \<^verbatim>\<open>onGameSelect\<close>.
\<close>

lemma fresh_closure_selects_earliest:
  assumes "captured = None \<or> captured = Some []" and "data \<noteq> []"
  shows "\<exists>firstEvent rest.
           events (fst (fetchEvents captured s (Loaded data))) = firstEvent # rest \<and>
           sorted (map commence_time (firstEvent # rest)) \<and>
           mset (firstEvent # rest) = mset data \<and>
           (\<forall>e\<in>set data. commence_time firstEvent \<le> commence_time e) \<and>
           selectedEventId (fst (fetchEvents captured s (Loaded data))) = Some (event_id firstEvent) \<and>
           snd (fetchEvents captured s (Loaded data)) = [event_id firstEvent]"
proof -
  let ?sorted = "array_sort by_commence_time data"
  have k: "?sorted = sort_key commence_time data"
    by (rule array_sort_key) (simp add: by_commence_time_def)
  have m: "mset ?sorted = mset data" by (rule mset_array_sort)
  with assms(2) have "?sorted \<noteq> []" by (metis mset_zero_iff)
  then obtain firstEvent rest where c: "?sorted = firstEvent # rest" by (cases ?sorted) auto
  have so: "sorted (map commence_time (firstEvent # rest))" using k c by (metis sorted_sort_key)
  have "set (firstEvent # rest) = set data" using m c by (metis set_mset_mset)
  with so have mn: "\<forall>e\<in>set data. commence_time firstEvent \<le> commence_time e" by auto
  have "fetchEvents captured s (Loaded data) =
          (s\<lparr>error := None, events := ?sorted, loading := False,
             selectedEventId := Some (event_id firstEvent)\<rparr>,
           [event_id firstEvent])"
    using assms(1) c by (simp add: fetchEvents_def Let_def)
  with c so m mn show ?thesis by simp
qed

text \<open>
  What the code does after a change of sport when an event was selected: the reset effect
  clears the selection, the closure still holds the old id, and the list that loads is
  stored sorted with nothing selected and no event passed to \<^verbatim>\<open>onGameSelect\<close>.
\<close>

lemma stale_closure_selects_nothing:
  assumes "selectedEventId rendered = Some eventId" and "eventId \<noteq> []"
  shows "events (fst (sportEffects rendered (Loaded data))) = array_sort by_commence_time data \<and>
         selectedEventId (fst (sportEffects rendered (Loaded data))) = None \<and>
         snd (sportEffects rendered (Loaded data)) = [[]]"
  using assms
  by (cases "array_sort by_commence_time data")
    (simp_all add: sportEffects_def resetSelection_def fetchEvents_def Let_def)

text \<open>
  Claim C9, at an input where the code departs from it. The component mounts, loads
  \<open>demoEvents\<close> and selects the earliest, \<open>e2\<close>, as the claim says. The user then switches to
  another sport, whose events are \<open>demoOtherEvents\<close>: the selection is reset, the new list
  loads with no event selected, and still nothing is auto-selected; the only call of
  \<^verbatim>\<open>onGameSelect\<close> is the one of the reset, with the empty string. The comment at line 66
  (\<^verbatim>\<open>Auto-select first game if none selected\<close>) says what the claim says; line 67 tests
  the id the closure captured, not the state.
\<close>

theorem sport_change_selects_nothing:
  "selectedEventId initialState = None \<and>
   map event_id (events demoMounted) = [''e2'', ''e1''] \<and>
   selectedEventId demoMounted = Some ''e2'' \<and>
   snd (sportEffects initialState (Loaded demoEvents)) = [[], ''e2''] \<and>
   map event_id (events (fst (sportEffects demoMounted (Loaded demoOtherEvents)))) = [''h2'', ''h1''] \<and>
   selectedEventId (fst (sportEffects demoMounted (Loaded demoOtherEvents))) = None \<and>
   snd (sportEffects demoMounted (Loaded demoOtherEvents)) = [[]]"
proof -
  have 1: "selectedEventId initialState = None" by (simp add: initialState_def)
  have 2: "map event_id (events demoMounted) = [''e2'', ''e1'']" by code_simp
  have 3: "selectedEventId demoMounted = Some ''e2''" by code_simp
  have 4: "snd (sportEffects initialState (Loaded demoEvents)) = [[], ''e2'']" by code_simp
  have 5: "map event_id (events (fst (sportEffects demoMounted (Loaded demoOtherEvents)))) =
           [''h2'', ''h1'']" by code_simp
  have 6: "selectedEventId (fst (sportEffects demoMounted (Loaded demoOtherEvents))) = None"
    by code_simp
  have 7: "snd (sportEffects demoMounted (Loaded demoOtherEvents)) = [[]]" by code_simp
  from 1 2 3 4 5 6 7 show ?thesis by (intro conjI)
qed

end
